theory Spec2Isabelle
  imports Main "HOL-Library.Option_ord" "HOL-Library.Product_Lexorder" "HOL-Library.Multiset"
begin

section \<open>Data model\<close>

text \<open>
  The documents of \<^verbatim>\<open>models/Transcription.model.ts\<close> (interface \<^verbatim>\<open>ITranscription\<close>).
  Strings stay strings, as the TypeScript has them; an optional field is an \<open>option\<close>;
  a \<^verbatim>\<open>Date\<close> is a number of milliseconds. The field \<^verbatim>\<open>_id\<close> is called \<open>oid\<close>.
\<close>

record history_entry =
  status :: string
  timestamp :: nat
  comment :: "string option"
  reviewedBy :: "string option"

record ITranscription =
  oid :: string
  audioUrl :: string
  transcription :: string
  source :: "string option"
  language :: "string option"
  workflowStatus :: "string option"
  workflowHistory :: "history_entry list option"
  createdAt :: nat
  updatedAt :: "nat option"

text \<open>
  A thrown value. \<open>Error\<close> is \<^verbatim>\<open>new Error(message)\<close> of the services, \<open>TypeError\<close> the
  runtime's error on \<^verbatim>\<open>undefined.includes\<close>, \<open>StoreError\<close> a rejection of the document
  store (validation, duplicate key, cast, connection), \<open>ThrownUndefined\<close> the value
  \<^verbatim>\<open>undefined\<close> thrown by \<^verbatim>\<open>throw lastError\<close> when no attempt was made.
\<close>

datatype error = Error string | TypeError string | StoreError string | ThrownUndefined

text \<open>
  The process state: the \<^verbatim>\<open>transcriptions\<close> collection in its natural (insertion) order,
  and the callbacks registered with \<^verbatim>\<open>setTimeout\<close> and not fired yet, each with its delay
  in milliseconds and the id it will pass to \<^verbatim>\<open>autoProgressWorkflow\<close>.
\<close>

record world =
  collection :: "ITranscription list"
  timers :: "(nat \<times> string) list"

subsection \<open>JavaScript helpers\<close>

text \<open>Truthiness of a value of type \<^verbatim>\<open>string | undefined\<close>: the empty string is falsy.\<close>

definition truthy :: "string option \<Rightarrow> bool" where
  "truthy v = (case v of None \<Rightarrow> False | Some s \<Rightarrow> s \<noteq> [])"

text \<open>\<^verbatim>\<open>v || d\<close> on such a value.\<close>

definition or_default :: "string option \<Rightarrow> string \<Rightarrow> string" where
  "or_default v d = (case v of None \<Rightarrow> d | Some s \<Rightarrow> if s = [] then d else s)"

text \<open>\<^verbatim>\<open>Array.prototype.join\<close>.\<close>

fun join :: "string \<Rightarrow> string list \<Rightarrow> string" where
  "join sep [] = []"
| "join sep [x] = x"
| "join sep (x # y # ys) = x @ sep @ join sep (y # ys)"

text \<open>\<^verbatim>\<open>String.prototype.includes\<close>: \<open>str_includes s p\<close> holds when \<open>p\<close> occurs in \<open>s\<close>.\<close>

fun str_includes :: "string \<Rightarrow> string \<Rightarrow> bool" where
  "str_includes [] p = (p = [])"
| "str_includes (c # cs) p = (take (length p) (c # cs) = p \<or> str_includes cs p)"

text \<open>
  \<^verbatim>\<open>String.prototype.trim\<close>, which the schema applies to \<^verbatim>\<open>audioUrl\<close> and
  \<^verbatim>\<open>transcription\<close> (\<^verbatim>\<open>trim: true\<close>), on the ASCII white space characters.
\<close>

definition is_space :: "char \<Rightarrow> bool" where
  "is_space c = (c \<in> set [CHR '' '', CHR 0x09, CHR 0x0A, CHR 0x0B, CHR 0x0C, CHR 0x0D])"

definition trim :: "string \<Rightarrow> string" where
  "trim s = rev (dropWhile is_space (rev (dropWhile is_space s)))"

subsection \<open>The document store\<close>

text \<open>
  \<^verbatim>\<open>Transcription.findById\<close>: the document with that \<^verbatim>\<open>_id\<close>, or \<^verbatim>\<open>null\<close>. Whether the
  call itself rejects is decided outside the program; each operation below takes that
  outcome as an input (\<open>Some message\<close> when the call rejects).
\<close>

definition findById :: "ITranscription list \<Rightarrow> string \<Rightarrow> ITranscription option" where
  "findById c i = find (\<lambda>d. oid d = i) c"

text \<open>\<^verbatim>\<open>save()\<close> of a document that was loaded from the store: it is written back under its \<^verbatim>\<open>_id\<close>.\<close>

fun write_back :: "ITranscription \<Rightarrow> ITranscription list \<Rightarrow> ITranscription list" where
  "write_back d [] = []"
| "write_back d (x # xs) = (if oid x = oid d then d # xs else x # write_back d xs)"

text \<open>
  \<^verbatim>\<open>save()\<close> of a document made with \<^verbatim>\<open>new Transcription(...)\<close>: an insert. The store keeps
  \<^verbatim>\<open>_id\<close> unique, so an id already present is refused.
\<close>

definition save_new ::
  "ITranscription list \<Rightarrow> ITranscription \<Rightarrow> string option \<Rightarrow> error + ITranscription list" where
  "save_new c d failure =
     (case failure of
        Some m \<Rightarrow> Inl (StoreError m)
      | None \<Rightarrow>
          if oid d \<in> set (map oid c) then Inl (StoreError ''E11000 duplicate key error'')
          else Inr (c @ [d]))"

section \<open>The workflow service\<close>

record WorkflowTransitionRequest =
  transcriptionId :: string
  newStatus :: string
  rq_comment :: "string option"
  rq_reviewedBy :: "string option"

record WorkflowCreateRequest =
  rq_audioUrl :: string
  rq_language :: "string option"

record WorkflowStatusResponse =
  resp_id :: string
  currentStatus :: string
  resp_workflowHistory :: "history_entry list"
  canTransition :: "string list"

text \<open>
  \<^verbatim>\<open>WorkflowService.validTransitions\<close>, a table from status to the list of next statuses.
  A key that the table does not have gives \<^verbatim>\<open>undefined\<close>, here \<open>None\<close>. (The names
  that every JavaScript object inherits, such as \<^verbatim>\<open>constructor\<close>, are not statuses that the
  schema's \<^verbatim>\<open>enum\<close> lets into the store, and are left out.)
\<close>

definition validTransitions_table :: "(string \<times> string list) list" where
  "validTransitions_table =
     [(''transcription'', [''review'', ''rejected'']),
      (''review'', [''approval'', ''rejected'', ''transcription'']),
      (''approval'', [''completed'', ''rejected'']),
      (''completed'', []),
      (''rejected'', [''transcription''])]"

definition validTransitions :: "string \<Rightarrow> string list option" where
  "validTransitions s = map_of validTransitions_table s"

text \<open>\<^verbatim>\<open>formatWorkflowResponse\<close>.\<close>

definition formatWorkflowResponse :: "ITranscription \<Rightarrow> WorkflowStatusResponse" where
  "formatWorkflowResponse t =
     (let cur = or_default (workflowStatus t) ''transcription'' in
      \<lparr> resp_id = oid t,
        currentStatus = cur,
        resp_workflowHistory = (case workflowHistory t of None \<Rightarrow> [] | Some h \<Rightarrow> h),
        canTransition = (case validTransitions cur of None \<Rightarrow> [] | Some xs \<Rightarrow> xs) \<rparr>)"

text \<open>
  What \<^verbatim>\<open>transitionWorkflow\<close> reads from outside: whether \<^verbatim>\<open>findById\<close> and \<^verbatim>\<open>save\<close> reject,
  and the two readings of the clock (\<^verbatim>\<open>new Date()\<close> for \<^verbatim>\<open>updatedAt\<close> and for the entry).
\<close>

record transition_env =
  find_error :: "string option"
  save_error :: "string option"
  now_updatedAt :: nat
  now_timestamp :: nat

definition invalid_transition_message :: "string \<Rightarrow> string \<Rightarrow> string list \<Rightarrow> string" where
  "invalid_transition_message cur new valid =
     ''Invalid transition from '' @ cur @ '' to '' @ new @ ''. '' @
     ''Valid transitions: '' @ join '', '' valid"

text \<open>
  \<^verbatim>\<open>transitionWorkflow\<close> after its \<^verbatim>\<open>await Transcription.findById(...)\<close>: \<open>found\<close> is the
  document that the read returned. The checks, the update of the in-memory document, the
  \<^verbatim>\<open>save\<close> and the scheduling follow in the order of the source. A failure leaves the
  world as it was. The \<^verbatim>\<open>await\<close> before this part is a point where another call can run,
  so \<open>found\<close> need not be what the store holds by now.
\<close>

definition transition_after_read ::
  "world \<Rightarrow> ITranscription option \<Rightarrow> WorkflowTransitionRequest \<Rightarrow> transition_env
     \<Rightarrow> (error + WorkflowStatusResponse) \<times> world" where
  "transition_after_read w found req env =
     (case found of
        None \<Rightarrow> (Inl (Error ''Transcription not found''), w)
      | Some t \<Rightarrow>
          if \<not> truthy (workflowStatus t)
          then (Inl (Error ''No workflow status found for this transcription''), w)
          else
            let cur = the (workflowStatus t) in
            (case validTransitions cur of
               None \<Rightarrow>
                 (Inl (TypeError ''Cannot read properties of undefined (reading 'includes')''), w)
             | Some validNextStates \<Rightarrow>
                 if newStatus req \<notin> set validNextStates
                 then (Inl (Error (invalid_transition_message cur (newStatus req) validNextStates)), w)
                 else
                   let t' = t\<lparr> workflowStatus := Some (newStatus req),
                               updatedAt := Some (now_updatedAt env),
                               workflowHistory := Some
                                 ((case workflowHistory t of None \<Rightarrow> [] | Some h \<Rightarrow> h) @
                                  [\<lparr> status = newStatus req,
                                     timestamp = now_timestamp env,
                                     comment = rq_comment req,
                                     reviewedBy = rq_reviewedBy req \<rparr>]) \<rparr>
                   in
                   (case save_error env of
                      Some m \<Rightarrow> (Inl (StoreError m), w)
                    | None \<Rightarrow>
                        (Inr (formatWorkflowResponse t'),
                         w\<lparr> collection := write_back t' (collection w),
                            timers := timers w @
                              (if newStatus req = ''review''
                               then [(3000, transcriptionId req)]
                               else if newStatus req = ''approval''
                               then [(5000, transcriptionId req)]
                               else []) \<rparr>))))"

text \<open>\<^verbatim>\<open>transitionWorkflow\<close>: the read, then the rest.\<close>

definition transitionWorkflow ::
  "world \<Rightarrow> WorkflowTransitionRequest \<Rightarrow> transition_env
     \<Rightarrow> (error + WorkflowStatusResponse) \<times> world" where
  "transitionWorkflow w req env =
     (case find_error env of
        Some m \<Rightarrow> (Inl (StoreError m), w)
      | None \<Rightarrow>
          transition_after_read w (findById (collection w) (transcriptionId req)) req env)"

text \<open>
  \<^verbatim>\<open>new Transcription({...})\<close> as the services call it: they always pass \<^verbatim>\<open>audioUrl\<close>,
  \<^verbatim>\<open>transcription\<close>, \<^verbatim>\<open>source\<close>, \<^verbatim>\<open>language\<close> and \<^verbatim>\<open>createdAt\<close>; only \<^verbatim>\<open>createWorkflow\<close>
  passes the two workflow fields (\<open>wflow\<close>). For a caller that leaves them out the schema
  fills in its defaults, \<^verbatim>\<open>workflowStatus: 'transcription'\<close> and an empty
  \<^verbatim>\<open>workflowHistory\<close> array.
\<close>

definition new_Transcription ::
  "string \<Rightarrow> string \<Rightarrow> string \<Rightarrow> string \<Rightarrow> string \<Rightarrow> (string \<times> history_entry list) option
     \<Rightarrow> nat \<Rightarrow> ITranscription" where
  "new_Transcription i url txt src lang wflow created =
     \<lparr> oid = i,
       audioUrl = trim url,
       transcription = trim txt,
       source = Some src,
       language = Some lang,
       workflowStatus = Some (case wflow of None \<Rightarrow> ''transcription'' | Some (s, h) \<Rightarrow> s),
       workflowHistory = Some (case wflow of None \<Rightarrow> [] | Some (s, h) \<Rightarrow> h),
       createdAt = created,
       updatedAt = None \<rparr>"

text \<open>
  What a create operation reads from outside: whether the mock download fails
  (\<^verbatim>\<open>Math.random()\<close> below the threshold), the canned text that
  \<^verbatim>\<open>generateMockTranscription\<close> picks at random (it cannot fail), the fresh \<^verbatim>\<open>_id\<close>, the
  readings of the clock, and whether \<^verbatim>\<open>save\<close> rejects.
\<close>

record create_env =
  download_fails :: bool
  mock_text :: string
  new_oid :: string
  now_history :: nat
  now_createdAt :: nat
  create_save_error :: "string option"

text \<open>\<^verbatim>\<open>createWorkflow\<close>.\<close>

definition createWorkflow ::
  "world \<Rightarrow> WorkflowCreateRequest \<Rightarrow> create_env \<Rightarrow> (error + WorkflowStatusResponse) \<times> world" where
  "createWorkflow w request env =
     (if download_fails env
      then (Inl (Error ''Audio download failed - network timeout''), w)
      else
        let transcriptionText = mock_text env;
            doc = new_Transcription (new_oid env) (rq_audioUrl request) transcriptionText ''mock''
                    (or_default (rq_language request) ''en-US'')
                    (Some (''transcription'',
                           [\<lparr> status = ''transcription'',
                              timestamp = now_history env,
                              comment = Some ''Workflow initiated - transcription completed'',
                              reviewedBy = None \<rparr>]))
                    (now_createdAt env)
        in
        (case save_new (collection w) doc (create_save_error env) of
           Inl e \<Rightarrow> (Inl e, w)
         | Inr c' \<Rightarrow>
             (Inr (formatWorkflowResponse doc),
              w\<lparr> collection := c', timers := timers w @ [(2000, oid doc)] \<rparr>)))"

text \<open>\<^verbatim>\<open>getWorkflowStatus\<close>; \<open>failure\<close> is the outcome of its \<^verbatim>\<open>findById\<close>.\<close>

definition getWorkflowStatus ::
  "world \<Rightarrow> string \<Rightarrow> string option \<Rightarrow> error + WorkflowStatusResponse" where
  "getWorkflowStatus w transcriptionId' failure =
     (case failure of
        Some m \<Rightarrow> Inl (StoreError m)
      | None \<Rightarrow>
          (case findById (collection w) transcriptionId' of
             None \<Rightarrow> Inl (Error ''Transcription not found'')
           | Some t \<Rightarrow> Inr (formatWorkflowResponse t)))"

subsection \<open>Auto-progression\<close>

text \<open>
  The \<^verbatim>\<open>switch\<close> of \<^verbatim>\<open>autoProgressWorkflow\<close>: the next status and the comment, or \<open>None\<close>
  for the \<^verbatim>\<open>default\<close> branch, which returns.
\<close>

definition auto_next :: "string \<Rightarrow> (string \<times> string) option" where
  "auto_next s =
     (if s = ''transcription'' then Some (''review'', ''Auto-progressed to review phase'')
      else if s = ''review'' then Some (''approval'', ''Auto-progressed to approval phase'')
      else if s = ''approval'' then Some (''completed'', ''Auto-completed workflow'')
      else None)"

record auto_env =
  auto_find_error :: "string option"
  auto_transition_env :: transition_env

text \<open>The \<^verbatim>\<open>try\<close> block of \<^verbatim>\<open>autoProgressWorkflow\<close>; \<open>Inl\<close> is a value thrown inside it.\<close>

definition autoProgress_try :: "world \<Rightarrow> string \<Rightarrow> auto_env \<Rightarrow> (error + unit) \<times> world" where
  "autoProgress_try w i env =
     (case auto_find_error env of
        Some m \<Rightarrow> (Inl (StoreError m), w)
      | None \<Rightarrow>
          (case findById (collection w) i of
             None \<Rightarrow> (Inr (), w)
           | Some t \<Rightarrow>
               if \<not> truthy (workflowStatus t) then (Inr (), w)
               else
                 (case auto_next (the (workflowStatus t)) of
                    None \<Rightarrow> (Inr (), w)
                  | Some (nextStatus, c) \<Rightarrow>
                      (case transitionWorkflow w
                              \<lparr> transcriptionId = i, newStatus = nextStatus,
                                rq_comment = Some c, rq_reviewedBy = Some ''system'' \<rparr>
                              (auto_transition_env env) of
                         (Inl e, w') \<Rightarrow> (Inl e, w')
                       | (Inr r, w') \<Rightarrow> (Inr (), w')))))"

text \<open>\<^verbatim>\<open>autoProgressWorkflow\<close>: the \<^verbatim>\<open>catch\<close> logs the thrown value and returns.\<close>

definition autoProgressWorkflow :: "world \<Rightarrow> string \<Rightarrow> auto_env \<Rightarrow> (error + unit) \<times> world" where
  "autoProgressWorkflow w i env =
     (case autoProgress_try w i env of
        (Inl e, w') \<Rightarrow> (Inr (), w')
      | (Inr u, w') \<Rightarrow> (Inr u, w'))"

subsection \<open>Listing\<close>

record WorkflowListResponse =
  workflows :: "ITranscription list"
  total :: nat
  resp_page :: nat
  resp_limit :: nat

text \<open>
  The query of \<^verbatim>\<open>listWorkflows\<close>: \<^verbatim>\<open>{ workflowStatus: { $exists: true } }\<close>, replaced by
  \<^verbatim>\<open>{ workflowStatus: status }\<close> when \<^verbatim>\<open>status\<close> is truthy.
\<close>

definition query_matches :: "string option \<Rightarrow> ITranscription \<Rightarrow> bool" where
  "query_matches status' d =
     (if truthy status' then workflowStatus d = status' else workflowStatus d \<noteq> None)"

text \<open>
  \<^verbatim>\<open>.sort({ updatedAt: -1, createdAt: -1 })\<close>: descending in \<^verbatim>\<open>updatedAt\<close>, then in
  \<^verbatim>\<open>createdAt\<close>; a document without \<^verbatim>\<open>updatedAt\<close> sorts below every date (\<open>None\<close> is the
  least element). The store leaves the order of equal keys open; here it is fixed.
\<close>

definition sort_key_of :: "ITranscription \<Rightarrow> nat option \<times> nat" where
  "sort_key_of d = (updatedAt d, createdAt d)"

definition sort_desc :: "ITranscription list \<Rightarrow> ITranscription list" where
  "sort_desc c = rev (sort_key sort_key_of c)"

text \<open>\<^verbatim>\<open>.limit(n)\<close>: zero means no limit.\<close>

definition limit_docs :: "nat \<Rightarrow> 'a list \<Rightarrow> 'a list" where
  "limit_docs n xs = (if n = 0 then xs else take n xs)"

text \<open>
  \<^verbatim>\<open>listWorkflows\<close>, for the natural numbers \<^verbatim>\<open>page\<close> and \<^verbatim>\<open>limit\<close> that the controller passes.
  The store refuses a negative \<^verbatim>\<open>skip\<close>; \<open>failure\<close> is the outcome of the two queries.
\<close>

definition listWorkflows ::
  "world \<Rightarrow> string option \<Rightarrow> nat \<Rightarrow> nat \<Rightarrow> string option \<Rightarrow> error + WorkflowListResponse" where
  "listWorkflows w status' page limit failure =
     (let skip = (int page - 1) * int limit in
      case failure of
        Some m \<Rightarrow> Inl (StoreError m)
      | None \<Rightarrow>
          if skip < 0 then Inl (StoreError ''Skip value must be non-negative'')
          else
            Inr \<lparr> workflows =
                    limit_docs limit
                      (drop (nat skip) (sort_desc (filter (query_matches status') (collection w)))),
                  total = length (filter (query_matches status') (collection w)),
                  resp_page = page,
                  resp_limit = limit \<rparr>)"

section \<open>The workflow controller: \<^verbatim>\<open>PUT /workflow/:id/transition\<close>\<close>

record transition_body =
  b_newStatus :: "string option"
  b_comment :: "string option"
  b_reviewedBy :: "string option"

text \<open>
  The JSON of a response: \<^verbatim>\<open>{ error }\<close>, \<^verbatim>\<open>{ error, message }\<close> or
  \<^verbatim>\<open>{ success: true, data, message }\<close>.
\<close>

datatype http_body =
    ErrorOnly string
  | ErrorMessage string string
  | Success WorkflowStatusResponse string

record http_response =
  statusCode :: nat
  body :: http_body

text \<open>\<^verbatim>\<open>error instanceof Error ? error.message : 'Unknown error'\<close>.\<close>

fun error_message :: "error \<Rightarrow> string" where
  "error_message (Error m) = m"
| "error_message (TypeError m) = m"
| "error_message (StoreError m) = m"
| "error_message ThrownUndefined = ''Unknown error''"

definition instanceof_Error :: "error \<Rightarrow> bool" where
  "instanceof_Error e = (e \<noteq> ThrownUndefined)"

definition validStatuses :: "string list" where
  "validStatuses = [''review'', ''approval'', ''completed'', ''rejected'']"

text \<open>\<^verbatim>\<open>WorkflowController.transitionWorkflow\<close>; \<open>i\<close> is \<^verbatim>\<open>req.params.id\<close>.\<close>

definition controller_transitionWorkflow ::
  "world \<Rightarrow> string \<Rightarrow> transition_body \<Rightarrow> transition_env \<Rightarrow> http_response \<times> world" where
  "controller_transitionWorkflow w i b env =
     (if i = [] then
        (\<lparr> statusCode = 400, body = ErrorOnly ''Workflow ID is required'' \<rparr>, w)
      else if \<not> truthy (b_newStatus b) then
        (\<lparr> statusCode = 400, body = ErrorOnly ''newStatus is required'' \<rparr>, w)
      else if the (b_newStatus b) \<notin> set validStatuses then
        (\<lparr> statusCode = 400,
           body = ErrorOnly (''Invalid status. Must be one of: '' @ join '', '' validStatuses) \<rparr>, w)
      else
        (case transitionWorkflow w
                \<lparr> transcriptionId = i, newStatus = the (b_newStatus b),
                  rq_comment = b_comment b, rq_reviewedBy = b_reviewedBy b \<rparr> env of
           (Inr result, w') \<Rightarrow>
             (\<lparr> statusCode = 200,
                body = Success result (''Workflow transitioned to '' @ the (b_newStatus b)) \<rparr>, w')
         | (Inl e, w') \<Rightarrow>
             (\<lparr> statusCode =
                  (if instanceof_Error e \<and> str_includes (error_message e) ''not found'' then 404
                   else if instanceof_Error e \<and> str_includes (error_message e) ''Invalid transition''
                   then 400 else 500),
                body = ErrorMessage ''Failed to transition workflow'' (error_message e) \<rparr>, w')))"

section \<open>The plain transcription service\<close>

record CreateTranscriptionRequest =
  ct_audioUrl :: string
  ct_language :: "string option"

record CreateTranscriptionResponse =
  ct_id :: string
  ct_message :: string

text \<open>\<^verbatim>\<open>TranscriptionService.createTranscription\<close>: it passes no workflow field.\<close>

definition createTranscription ::
  "world \<Rightarrow> CreateTranscriptionRequest \<Rightarrow> create_env
     \<Rightarrow> (error + CreateTranscriptionResponse) \<times> world" where
  "createTranscription w request env =
     (if download_fails env
      then (Inl (Error ''Audio download failed - network timeout''), w)
      else
        let language' = or_default (ct_language request) ''en-US'';
            transcriptionText = mock_text env;
            doc = new_Transcription (new_oid env) (ct_audioUrl request) transcriptionText ''mock''
                    language' None (now_createdAt env)
        in
        (case save_new (collection w) doc (create_save_error env) of
           Inl e \<Rightarrow> (Inl e, w)
         | Inr c' \<Rightarrow>
             (Inr \<lparr> ct_id = oid doc, ct_message = ''Transcription saved'' \<rparr>,
              w\<lparr> collection := c' \<rparr>)))"

section \<open>The remote speech service\<close>

record RetryConfig =
  maxAttempts :: nat
  baseDelay :: nat
  maxDelay :: nat

definition retryConfig :: RetryConfig where
  "retryConfig = \<lparr> maxAttempts = 3, baseDelay = 1000, maxDelay = 8000 \<rparr>"

text \<open>
  \<^verbatim>\<open>calculateDelay\<close>. Its only caller passes the loop counter, which starts at 1, so
  the exponent \<^verbatim>\<open>attempt - 1\<close> is never negative.
\<close>

definition calculateDelay :: "RetryConfig \<Rightarrow> nat \<Rightarrow> nat" where
  "calculateDelay cfg attempt = min (baseDelay cfg * 2 ^ (attempt - 1)) (maxDelay cfg)"

text \<open>What \<^verbatim>\<open>withRetry\<close> does besides returning: it invokes the operation and it sleeps.\<close>

datatype event = Invoke nat | Wait nat

text \<open>\<^verbatim>\<open>error instanceof Error ? error : new Error(String(error))\<close>.\<close>

definition as_Error :: "error \<Rightarrow> error" where
  "as_Error e = (if instanceof_Error e then e else Error ''undefined'')"

text \<open>
  The loop of \<^verbatim>\<open>withRetry\<close> from the counter value \<open>attempt\<close> on, with \<^verbatim>\<open>lastError\<close> as it
  stands there. \<open>operation k\<close> is the outcome of the invocation made in round \<open>k\<close>. The
  result comes with the events in the order they happen.
\<close>

function withRetry_from ::
  "RetryConfig \<Rightarrow> (nat \<Rightarrow> error + 'a) \<Rightarrow> nat \<Rightarrow> error option \<Rightarrow> (error + 'a) \<times> event list" where
  "withRetry_from cfg operation attempt lastError =
     (if attempt \<le> maxAttempts cfg then
        (case operation attempt of
           Inr v \<Rightarrow> (Inr v, [Invoke attempt])
         | Inl e \<Rightarrow>
             if attempt = maxAttempts cfg then (Inl (as_Error e), [Invoke attempt])
             else
               (case withRetry_from cfg operation (attempt + 1) (Some (as_Error e)) of
                  (r, evs) \<Rightarrow> (r, Invoke attempt # Wait (calculateDelay cfg attempt) # evs)))
      else (Inl (case lastError of None \<Rightarrow> ThrownUndefined | Some e \<Rightarrow> e), []))"
  by pat_completeness auto
termination
  by (relation "measure (\<lambda>(cfg, operation, attempt, lastError). Suc (maxAttempts cfg) - attempt)")
    auto

declare withRetry_from.simps [simp del]

definition withRetry :: "RetryConfig \<Rightarrow> (nat \<Rightarrow> error + 'a) \<Rightarrow> (error + 'a) \<times> event list" where
  "withRetry cfg operation = withRetry_from cfg operation 1 None"

record AzureTranscriptionRequest =
  az_audioUrl :: string
  az_language :: "string option"

record AzureTranscriptionResponse =
  az_id :: string
  az_message :: string

text \<open>
  What \<^verbatim>\<open>createAzureTranscription\<close> reads from outside: the environment variable behind
  \<^verbatim>\<open>config.AZURE_REGION\<close>, whether the download fails, for each round whether the speech
  call fails and the text it returns otherwise, and for the two \<^verbatim>\<open>save\<close> calls (the
  regular one and the fallback) the fresh \<^verbatim>\<open>_id\<close>, the clock and whether the call rejects.
\<close>

record azure_env =
  env_AZURE_REGION :: "string option"
  az_download_fails :: bool
  speech_fails :: "nat \<Rightarrow> bool"
  speech_text :: "nat \<Rightarrow> string"
  az_new_oid :: string
  az_now_createdAt :: nat
  az_save_error :: "string option"
  fb_new_oid :: string
  fb_now_createdAt :: nat
  fb_save_error :: "string option"

text \<open>\<^verbatim>\<open>config.AZURE_REGION\<close>: \<^verbatim>\<open>process.env.AZURE_REGION || 'eastus'\<close>.\<close>

definition AZURE_REGION :: "azure_env \<Rightarrow> string" where
  "AZURE_REGION env = or_default (env_AZURE_REGION env) ''eastus''"

text \<open>
  \<^verbatim>\<open>callAzureSpeechService\<close> in round \<open>k\<close>. The caller never passes \<^verbatim>\<open>attempt\<close>, so the
  message always carries the default, 1.
\<close>

definition callAzureSpeechService :: "azure_env \<Rightarrow> nat \<Rightarrow> error + string" where
  "callAzureSpeechService env k =
     (if speech_fails env k
      then Inl (Error ''Azure Speech API error: Service temporarily unavailable (attempt 1)'')
      else Inr (speech_text env k))"

definition fallback_text :: string where
  "fallback_text =
     ''This is a fallback transcription generated when Azure Speech Service is unavailable.''"

text \<open>\<^verbatim>\<open>fallbackToMockTranscription\<close>.\<close>

definition fallbackToMockTranscription ::
  "world \<Rightarrow> AzureTranscriptionRequest \<Rightarrow> azure_env
     \<Rightarrow> (error + AzureTranscriptionResponse) \<times> world" where
  "fallbackToMockTranscription w request env =
     (let language' = or_default (az_language request) ''en-US'';
          doc = new_Transcription (fb_new_oid env) (az_audioUrl request) fallback_text ''mock''
                  language' None (fb_now_createdAt env)
      in
      case save_new (collection w) doc (fb_save_error env) of
        Inl fallbackError \<Rightarrow>
          (Inl (Error ''Both Azure and fallback transcription failed''), w)
      | Inr c' \<Rightarrow>
          (Inr \<lparr> az_id = oid doc, az_message = ''Transcription saved (fallback mode)'' \<rparr>,
           w\<lparr> collection := c' \<rparr>))"

text \<open>The \<^verbatim>\<open>try\<close> block of \<^verbatim>\<open>createAzureTranscription\<close>.\<close>

definition createAzure_try ::
  "world \<Rightarrow> AzureTranscriptionRequest \<Rightarrow> azure_env
     \<Rightarrow> (error + AzureTranscriptionResponse) \<times> world" where
  "createAzure_try w request env =
     (if \<not> truthy (Some (AZURE_REGION env))
      then (Inl (Error ''AZURE_REGION is required for Azure Speech Service''), w)
      else if az_download_fails env
      then (Inl (Error ''Failed to download audio for Azure processing''), w)
      else
        let language' = or_default (az_language request) ''en-US'' in
        (case fst (withRetry retryConfig (callAzureSpeechService env)) of
           Inl e \<Rightarrow> (Inl e, w)
         | Inr transcriptionText \<Rightarrow>
             let doc = new_Transcription (az_new_oid env) (az_audioUrl request) transcriptionText
                         ''azure'' language' None (az_now_createdAt env)
             in
             (case save_new (collection w) doc (az_save_error env) of
                Inl e \<Rightarrow> (Inl e, w)
              | Inr c' \<Rightarrow>
                  (Inr \<lparr> az_id = oid doc, az_message = ''Transcription saved'' \<rparr>,
                   w\<lparr> collection := c' \<rparr>))))"

text \<open>\<^verbatim>\<open>createAzureTranscription\<close>: whatever the block throws, the \<^verbatim>\<open>catch\<close> falls back.\<close>

definition createAzureTranscription ::
  "world \<Rightarrow> AzureTranscriptionRequest \<Rightarrow> azure_env
     \<Rightarrow> (error + AzureTranscriptionResponse) \<times> world" where
  "createAzureTranscription w request env =
     (case createAzure_try w request env of
        (Inr r, w') \<Rightarrow> (Inr r, w')
      | (Inl e, w') \<Rightarrow> fallbackToMockTranscription w' request env)"

section \<open>Vocabulary of the properties\<close>

text \<open>The five workflow states of the specification, and its transition table.\<close>

definition workflow_statuses :: "string list" where
  "workflow_statuses = [''transcription'', ''review'', ''approval'', ''completed'', ''rejected'']"

definition spec_allowed_next :: "string \<Rightarrow> string list" where
  "spec_allowed_next s =
     (if s = ''transcription'' then [''review'', ''rejected'']
      else if s = ''review'' then [''approval'', ''rejected'', ''transcription'']
      else if s = ''approval'' then [''completed'', ''rejected'']
      else if s = ''completed'' then []
      else if s = ''rejected'' then [''transcription'']
      else [])"

text \<open>The history of a document, empty when the field is absent.\<close>

definition history_of :: "ITranscription \<Rightarrow> history_entry list" where
  "history_of d = (case workflowHistory d of None \<Rightarrow> [] | Some h \<Rightarrow> h)"

text \<open>The document that a successful transition writes, and the timers it registers.\<close>

definition transitioned ::
  "ITranscription \<Rightarrow> WorkflowTransitionRequest \<Rightarrow> transition_env \<Rightarrow> ITranscription" where
  "transitioned t req env =
     t\<lparr> workflowStatus := Some (newStatus req),
        updatedAt := Some (now_updatedAt env),
        workflowHistory := Some
          (history_of t @
           [\<lparr> status = newStatus req, timestamp = now_timestamp env,
              comment = rq_comment req, reviewedBy = rq_reviewedBy req \<rparr>]) \<rparr>"

definition scheduled :: "WorkflowTransitionRequest \<Rightarrow> (nat \<times> string) list" where
  "scheduled req =
     (if newStatus req = ''review'' then [(3000, transcriptionId req)]
      else if newStatus req = ''approval'' then [(5000, transcriptionId req)]
      else [])"

text \<open>
  Runs of the workflow operations from the empty store: creations, transitions with any
  request, and timers firing for any id at any moment.
\<close>

datatype workflow_op =
    Create WorkflowCreateRequest create_env
  | Transition WorkflowTransitionRequest transition_env
  | TimerFires string auto_env

fun apply_op :: "world \<Rightarrow> workflow_op \<Rightarrow> world" where
  "apply_op w (Create request env) = snd (createWorkflow w request env)"
| "apply_op w (Transition request env) = snd (transitionWorkflow w request env)"
| "apply_op w (TimerFires i env) = snd (autoProgressWorkflow w i env)"

definition run :: "workflow_op list \<Rightarrow> world" where
  "run ops = foldl apply_op \<lparr> collection = [], timers = [] \<rparr> ops"

text \<open>The history is not empty and its last entry carries the current status.\<close>

definition mirrors :: "ITranscription \<Rightarrow> bool" where
  "mirrors d =
     (history_of d \<noteq> [] \<and> workflowStatus d = Some (status (last (history_of d))))"

text \<open>The auto-progression map of the specification.\<close>

definition spec_nextStatusFor :: "string \<Rightarrow> string option" where
  "spec_nextStatusFor s =
     (if s = ''transcription'' then Some ''review''
      else if s = ''review'' then Some ''approval''
      else if s = ''approval'' then Some ''completed''
      else None)"

text \<open>The document that \<^verbatim>\<open>createWorkflow\<close> saves.\<close>

definition created ::
  "WorkflowCreateRequest \<Rightarrow> create_env \<Rightarrow> ITranscription" where
  "created request env =
     \<lparr> oid = new_oid env,
       audioUrl = trim (rq_audioUrl request),
       transcription = trim (mock_text env),
       source = Some ''mock'',
       language = Some (or_default (rq_language request) ''en-US''),
       workflowStatus = Some ''transcription'',
       workflowHistory = Some
         [\<lparr> status = ''transcription'', timestamp = now_history env,
            comment = Some ''Workflow initiated - transcription completed'',
            reviewedBy = None \<rparr>],
       createdAt = now_createdAt env,
       updatedAt = None \<rparr>"

text \<open>The document that \<^verbatim>\<open>fallbackToMockTranscription\<close> saves.\<close>

definition fallback_doc :: "AzureTranscriptionRequest \<Rightarrow> azure_env \<Rightarrow> ITranscription" where
  "fallback_doc request env =
     \<lparr> oid = fb_new_oid env,
       audioUrl = trim (az_audioUrl request),
       transcription = fallback_text,
       source = Some ''mock'',
       language = Some (or_default (az_language request) ''en-US''),
       workflowStatus = Some ''transcription'',
       workflowHistory = Some [],
       createdAt = fb_now_createdAt env,
       updatedAt = None \<rparr>"

text \<open>
  The order of the listing: \<open>a\<close> may stand before \<open>b\<close> when \<open>a\<close> was updated later, or
  both were updated at the same time (or never) and \<open>a\<close> was not created earlier. A record
  that was never updated counts as updated before every record that was.
\<close>

definition newer_or_equal :: "ITranscription \<Rightarrow> ITranscription \<Rightarrow> bool" where
  "newer_or_equal a b =
     (updatedAt b < updatedAt a \<or> (updatedAt b = updatedAt a \<and> createdAt b \<le> createdAt a))"

text \<open>Whether an event is an invocation of the operation.\<close>

fun is_Invoke :: "event \<Rightarrow> bool" where
  "is_Invoke (Invoke k) = True"
| "is_Invoke (Wait n) = False"

section \<open>Concrete inputs\<close>

text \<open>
  A store with two workflow records, a request on the first, and an environment in which
  the store answers.
\<close>

definition ex_doc :: "string \<Rightarrow> string \<Rightarrow> ITranscription" where
  "ex_doc i s =
     \<lparr> oid = i, audioUrl = ''https://example.com/a.mp3'', transcription = ''sample'',
       source = Some ''mock'', language = Some ''en-US'',
       workflowStatus = Some s,
       workflowHistory = Some
         [\<lparr> status = ''transcription'', timestamp = 10,
            comment = Some ''Workflow initiated - transcription completed'',
            reviewedBy = None \<rparr>,
          \<lparr> status = s, timestamp = 20, comment = None, reviewedBy = None \<rparr>],
       createdAt = 10, updatedAt = Some 20 \<rparr>"

definition ex_world :: "string \<Rightarrow> world" where
  "ex_world s = \<lparr> collection = [ex_doc ''a1'' s, ex_doc ''b2'' ''review''], timers = [] \<rparr>"

definition ex_request :: "string \<Rightarrow> WorkflowTransitionRequest" where
  "ex_request n =
     \<lparr> transcriptionId = ''a1'', newStatus = n, rq_comment = Some ''checked'',
       rq_reviewedBy = Some ''ann'' \<rparr>"

definition ex_env :: transition_env where
  "ex_env = \<lparr> find_error = None, save_error = None, now_updatedAt = 30, now_timestamp = 31 \<rparr>"

text \<open>A creation and the timer it registers firing.\<close>

definition ex_create_request :: WorkflowCreateRequest where
  "ex_create_request = \<lparr> rq_audioUrl = ''https://example.com/a.mp3'', rq_language = None \<rparr>"

definition ex_create_env :: create_env where
  "ex_create_env =
     \<lparr> download_fails = False, mock_text = ''Sample audio processed.'', new_oid = ''a1'',
       now_history = 10, now_createdAt = 11, create_save_error = None \<rparr>"

definition ex_auto_env :: auto_env where
  "ex_auto_env = \<lparr> auto_find_error = None, auto_transition_env = ex_env \<rparr>"

definition ex_ops :: "workflow_op list" where
  "ex_ops = [Create ex_create_request ex_create_env, TimerFires ''a1'' ex_auto_env]"

text \<open>An environment in which the store is down when the timer fires.\<close>

definition ex_auto_env_down :: auto_env where
  "ex_auto_env_down = \<lparr> auto_find_error = Some ''connect ECONNREFUSED'', auto_transition_env = ex_env \<rparr>"

text \<open>A record that is rejected by hand while the timer of its creation is still pending.\<close>

definition ex_rejected_world :: world where
  "ex_rejected_world =
     apply_op (apply_op \<lparr> collection = [], timers = [] \<rparr> (Create ex_create_request ex_create_env))
       (Transition (ex_request ''rejected'') ex_env)"

text \<open>Environments in which the download fails, and in which the store refuses the write.\<close>

definition ex_create_env_no_download :: create_env where
  "ex_create_env_no_download = ex_create_env\<lparr> download_fails := True \<rparr>"

definition ex_create_env_no_save :: create_env where
  "ex_create_env_no_save = ex_create_env\<lparr> create_save_error := Some ''connect ECONNREFUSED'' \<rparr>"

text \<open>A request body that asks for the status \<open>transcription\<close>.\<close>

definition ex_body_transcription :: transition_body where
  "ex_body_transcription =
     \<lparr> b_newStatus = Some ''transcription'', b_comment = Some ''redo'', b_reviewedBy = Some ''ann'' \<rparr>"

text \<open>
  Two calls of \<^verbatim>\<open>transitionWorkflow\<close> on the record \<open>a1\<close> that interleave at their
  \<^verbatim>\<open>await\<close>s: both read the store right after the creation (\<open>race_read\<close>), then the first
  call runs to its end (\<open>race_world_1\<close>), then the second.
\<close>

definition race_world_0 :: world where
  "race_world_0 = snd (createWorkflow \<lparr> collection = [], timers = [] \<rparr> ex_create_request ex_create_env)"

definition race_read :: "ITranscription option" where
  "race_read = findById (collection race_world_0) ''a1''"

definition race_world_1 :: world where
  "race_world_1 = snd (transition_after_read race_world_0 race_read (ex_request ''rejected'') ex_env)"

definition race_world_2 :: world where
  "race_world_2 = snd (transition_after_read race_world_1 race_read (ex_request ''review'') ex_env)"

text \<open>A stored document that has no workflow field, and a plain creation request.\<close>

definition ex_legacy_world :: world where
  "ex_legacy_world =
     \<lparr> collection =
         [\<lparr> oid = ''k9'', audioUrl = ''https://example.com/old.mp3'', transcription = ''old'',
            source = Some ''mock'', language = Some ''en-US'', workflowStatus = None,
            workflowHistory = None, createdAt = 5, updatedAt = None \<rparr>],
       timers = [] \<rparr>"

definition ex_plain_request :: CreateTranscriptionRequest where
  "ex_plain_request = \<lparr> ct_audioUrl = ''https://example.com/a.mp3'', ct_language = Some ''fr-FR'' \<rparr>"

text \<open>A store with four workflow records and one document without a workflow status.\<close>

definition ex_listed :: "string \<Rightarrow> string option \<Rightarrow> nat \<Rightarrow> nat option \<Rightarrow> ITranscription" where
  "ex_listed i s c u =
     \<lparr> oid = i, audioUrl = ''https://example.com/a.mp3'', transcription = ''sample'',
       source = Some ''mock'', language = Some ''en-US'', workflowStatus = s,
       workflowHistory = None, createdAt = c, updatedAt = u \<rparr>"

definition ex_list_world :: world where
  "ex_list_world =
     \<lparr> collection =
         [ex_listed ''d1'' (Some ''review'') 10 (Some 40),
          ex_listed ''d2'' (Some ''transcription'') 20 None,
          ex_listed ''d3'' None 25 None,
          ex_listed ''d4'' (Some ''review'') 30 (Some 50),
          ex_listed ''d5'' (Some ''review'') 35 (Some 40)],
       timers = [] \<rparr>"

text \<open>
  A request to the remote speech path, an environment in which every speech call fails, and
  one in which the store is down as well.
\<close>

definition ex_azure_request :: AzureTranscriptionRequest where
  "ex_azure_request = \<lparr> az_audioUrl = ''https://example.com/a.wav'', az_language = Some ''fr-FR'' \<rparr>"

definition ex_azure_env :: azure_env where
  "ex_azure_env =
     \<lparr> env_AZURE_REGION = None, az_download_fails = False,
       speech_fails = (\<lambda>k. True), speech_text = (\<lambda>k. ''unused''),
       az_new_oid = ''e6'', az_now_createdAt = 60, az_save_error = None,
       fb_new_oid = ''f7'', fb_now_createdAt = 70, fb_save_error = None \<rparr>"

definition ex_azure_env_down :: azure_env where
  "ex_azure_env_down = ex_azure_env\<lparr> fb_save_error := Some ''connect ECONNREFUSED'' \<rparr>"

section \<open>Properties\<close>

subsection \<open>Auxiliary facts\<close>

lemma validTransitions_known:
  "s \<in> set workflow_statuses \<Longrightarrow> validTransitions s = Some (spec_allowed_next s)"
  by (auto simp: workflow_statuses_def validTransitions_def validTransitions_table_def
      spec_allowed_next_def)

lemma truthy_known: "s \<in> set workflow_statuses \<Longrightarrow> truthy (Some s)"
  by (auto simp: workflow_statuses_def truthy_def)

lemma findById_oid: "findById c i = Some t \<Longrightarrow> oid t = i"
  by (auto simp: findById_def find_Some_iff)

lemma findById_write_back:
  "findById c i = Some t \<Longrightarrow> oid t' = i \<Longrightarrow> findById (write_back t' c) i = Some t'"
  by (induction c) (auto simp: findById_def split: if_splits)

lemma set_write_back: "set (write_back d c) \<subseteq> insert d (set c)"
  by (induction c) auto

lemma filter_write_back:
  "filter (\<lambda>x. oid x \<noteq> oid d) (write_back d c) = filter (\<lambda>x. oid x \<noteq> oid d) c"
  by (induction c) auto

lemma transition_after_read_result:
  "(\<exists>e. transition_after_read w found req env = (Inl e, w)) \<or>
   (\<exists>t. found = Some t \<and> truthy (workflowStatus t) \<and>
        transition_after_read w found req env =
          (Inr (formatWorkflowResponse (transitioned t req env)),
           w\<lparr> collection := write_back (transitioned t req env) (collection w),
              timers := timers w @ scheduled req \<rparr>))"
  by (simp add: transition_after_read_def transitioned_def scheduled_def history_of_def Let_def
      split: option.split)

lemma transitionWorkflow_result:
  "(\<exists>e. transitionWorkflow w req env = (Inl e, w)) \<or>
   (\<exists>t. findById (collection w) (transcriptionId req) = Some t \<and> truthy (workflowStatus t) \<and>
        transitionWorkflow w req env =
          (Inr (formatWorkflowResponse (transitioned t req env)),
           w\<lparr> collection := write_back (transitioned t req env) (collection w),
              timers := timers w @ scheduled req \<rparr>))"
  using transition_after_read_result
          [of w "findById (collection w) (transcriptionId req)" req env]
  by (cases "find_error env") (simp_all add: transitionWorkflow_def)

lemma oid_transitioned: "oid (transitioned t req env) = oid t"
  by (simp add: transitioned_def)

lemma mirrors_transitioned: "mirrors (transitioned t req env)"
  by (simp add: mirrors_def transitioned_def history_of_def)

lemma autoProgress_try_result:
  "(\<exists>r. autoProgress_try w i env = (r, w)) \<or>
   (\<exists>t n c. findById (collection w) i = Some t \<and> truthy (workflowStatus t) \<and>
        auto_next (the (workflowStatus t)) = Some (n, c) \<and>
        autoProgress_try w i env =
          (Inr (),
           snd (transitionWorkflow w
                  \<lparr> transcriptionId = i, newStatus = n, rq_comment = Some c,
                    rq_reviewedBy = Some ''system'' \<rparr> (auto_transition_env env))))"
proof (cases "auto_find_error env")
  case (Some m)
  then show ?thesis by (simp add: autoProgress_try_def)
next
  case None
  show ?thesis
  proof (cases "findById (collection w) i")
    case N: None
    with None show ?thesis by (simp add: autoProgress_try_def)
  next
    case (Some t)
    show ?thesis
    proof (cases "truthy (workflowStatus t)")
      case False
      with None Some show ?thesis by (simp add: autoProgress_try_def)
    next
      case True
      show ?thesis
      proof (cases "auto_next (the (workflowStatus t))")
        case A: None
        with None Some True show ?thesis by (simp add: autoProgress_try_def)
      next
        case (Some nc)
        obtain n c where nc: "nc = (n, c)" by (cases nc)
        let ?rq = "\<lparr> transcriptionId = i, newStatus = n, rq_comment = Some c,
                      rq_reviewedBy = Some ''system'' \<rparr>"
        from transitionWorkflow_result [of w ?rq "auto_transition_env env"]
        show ?thesis
          using None \<open>findById (collection w) i = Some t\<close> True Some nc
          by (auto simp: autoProgress_try_def)
      qed
    qed
  qed
qed

subsection \<open>Transitions follow the table\<close>

text \<open>
  C1. For a stored record whose status is one of the five workflow states, and any requested
  \<open>newStatus\<close>: when the store answers, \<open>transitionWorkflow\<close> succeeds if and only if
  \<open>newStatus\<close> is in the allowed-next list of the record's current status; when it is not in
  that list, the call fails with the error whose message is
  \<open>Invalid transition from <current> to <new>. Valid transitions: <the allowed list>\<close>, and the
  world (so the stored record) is unchanged.
\<close>

theorem transition_iff_allowed:
  assumes "find_error env = None"
    and "findById (collection w) (transcriptionId req) = Some t"
    and "workflowStatus t = Some s"
    and "s \<in> set workflow_statuses"
  shows "(save_error env = None \<longrightarrow>
           ((\<exists>r w'. transitionWorkflow w req env = (Inr r, w')) \<longleftrightarrow>
            newStatus req \<in> set (spec_allowed_next s))) \<and>
         (newStatus req \<notin> set (spec_allowed_next s) \<longrightarrow>
            transitionWorkflow w req env =
              (Inl (Error (''Invalid transition from '' @ s @ '' to '' @ newStatus req @
                           ''. Valid transitions: '' @ join '', '' (spec_allowed_next s))), w))"
  using assms validTransitions_known[OF assms(4)] truthy_known[OF assms(4)]
  by (simp add: transitionWorkflow_def transition_after_read_def Let_def
      invalid_transition_message_def)

theorem transition_iff_allowed_witness:
  "find_error ex_env = None \<and>
   findById (collection (ex_world ''review'')) (transcriptionId (ex_request ''completed''))
     = Some (ex_doc ''a1'' ''review'') \<and>
   workflowStatus (ex_doc ''a1'' ''review'') = Some ''review'' \<and>
   ''review'' \<in> set workflow_statuses \<and>
   transitionWorkflow (ex_world ''review'') (ex_request ''completed'') ex_env =
     (Inl (Error ''Invalid transition from review to completed. Valid transitions: approval, rejected, transcription''),
      ex_world ''review'') \<and>
   (\<exists>r w'. transitionWorkflow (ex_world ''review'') (ex_request ''approval'') ex_env = (Inr r, w'))"
proof -
  have h1: "find_error ex_env = None" by (simp add: ex_env_def)
  have h2: "findById (collection (ex_world ''review'')) (transcriptionId (ex_request ''completed''))
     = Some (ex_doc ''a1'' ''review'')"
    by (simp add: ex_world_def ex_request_def findById_def ex_doc_def)
  have h2': "findById (collection (ex_world ''review'')) (transcriptionId (ex_request ''approval''))
     = Some (ex_doc ''a1'' ''review'')"
    by (simp add: ex_world_def ex_request_def findById_def ex_doc_def)
  have h3: "workflowStatus (ex_doc ''a1'' ''review'') = Some ''review''" by (simp add: ex_doc_def)
  have h4: "''review'' \<in> set workflow_statuses" by (simp add: workflow_statuses_def)
  have s: "save_error ex_env = None" by (simp add: ex_env_def)
  from transition_iff_allowed [OF h1 h2 h3 h4] transition_iff_allowed [OF h1 h2' h3 h4]
  show ?thesis using h1 h2 h3 h4 s
    by (simp add: spec_allowed_next_def ex_request_def)
qed

subsection \<open>The history invariant\<close>

lemma createWorkflow_result:
  "createWorkflow w request env =
     (if download_fails env then (Inl (Error ''Audio download failed - network timeout''), w)
      else case create_save_error env of
        Some m \<Rightarrow> (Inl (StoreError m), w)
      | None \<Rightarrow>
          if new_oid env \<in> set (map oid (collection w))
          then (Inl (StoreError ''E11000 duplicate key error''), w)
          else (Inr (formatWorkflowResponse (created request env)),
                w\<lparr> collection := collection w @ [created request env],
                   timers := timers w @ [(2000, new_oid env)] \<rparr>))"
  by (simp add: createWorkflow_def save_new_def new_Transcription_def created_def Let_def
      split: option.split)

lemma mirrors_created: "mirrors (created request env)"
  by (simp add: mirrors_def created_def history_of_def)

lemma mirrors_createWorkflow:
  assumes "\<forall>d\<in>set (collection w). mirrors d"
  shows "\<forall>d\<in>set (collection (snd (createWorkflow w request env))). mirrors d"
  using assms mirrors_created [of request env]
  by (simp add: createWorkflow_result split: option.split)

lemma mirrors_write_back:
  assumes "\<forall>d\<in>set c. mirrors d" and "mirrors t"
  shows "\<forall>d\<in>set (write_back t c). mirrors d"
  using assms set_write_back [of t c] by blast

lemma mirrors_transitionWorkflow:
  assumes "\<forall>d\<in>set (collection w). mirrors d"
  shows "\<forall>d\<in>set (collection (snd (transitionWorkflow w req env))). mirrors d"
proof -
  from transitionWorkflow_result [of w req env]
  show ?thesis
  proof
    assume "\<exists>e. transitionWorkflow w req env = (Inl e, w)"
    with assms show ?thesis by auto
  next
    assume "\<exists>t. findById (collection w) (transcriptionId req) = Some t \<and>
        truthy (workflowStatus t) \<and>
        transitionWorkflow w req env =
          (Inr (formatWorkflowResponse (transitioned t req env)),
           w\<lparr> collection := write_back (transitioned t req env) (collection w),
              timers := timers w @ scheduled req \<rparr>)"
    then obtain t where "collection (snd (transitionWorkflow w req env)) =
        write_back (transitioned t req env) (collection w)"
      by auto
    with mirrors_write_back [OF assms mirrors_transitioned] show ?thesis by simp
  qed
qed

lemma snd_autoProgressWorkflow:
  "snd (autoProgressWorkflow w i env) = snd (autoProgress_try w i env)"
  by (simp add: autoProgressWorkflow_def split: prod.split sum.split)

lemma fst_autoProgressWorkflow: "fst (autoProgressWorkflow w i env) = Inr ()"
  by (simp add: autoProgressWorkflow_def split: prod.split sum.split)

lemma mirrors_autoProgressWorkflow:
  assumes "\<forall>d\<in>set (collection w). mirrors d"
  shows "\<forall>d\<in>set (collection (snd (autoProgressWorkflow w i env))). mirrors d"
proof -
  from autoProgress_try_result [of w i env]
  show ?thesis
  proof
    assume "\<exists>r. autoProgress_try w i env = (r, w)"
    with assms show ?thesis by (auto simp: snd_autoProgressWorkflow)
  next
    assume "\<exists>t n c. findById (collection w) i = Some t \<and> truthy (workflowStatus t) \<and>
        auto_next (the (workflowStatus t)) = Some (n, c) \<and>
        autoProgress_try w i env =
          (Inr (),
           snd (transitionWorkflow w
                  \<lparr> transcriptionId = i, newStatus = n, rq_comment = Some c,
                    rq_reviewedBy = Some ''system'' \<rparr> (auto_transition_env env)))"
    then obtain n c where "snd (autoProgress_try w i env) =
        snd (transitionWorkflow w
                  \<lparr> transcriptionId = i, newStatus = n, rq_comment = Some c,
                    rq_reviewedBy = Some ''system'' \<rparr> (auto_transition_env env))"
      by auto
    with mirrors_transitionWorkflow [OF assms] show ?thesis
      by (simp add: snd_autoProgressWorkflow)
  qed
qed

lemma mirrors_apply_op:
  "\<forall>d\<in>set (collection w). mirrors d \<Longrightarrow> \<forall>d\<in>set (collection (apply_op w op)). mirrors d"
proof (cases op)
  case (Create request env)
  assume "\<forall>d\<in>set (collection w). mirrors d"
  from mirrors_createWorkflow [OF this, of request env] Create show ?thesis by simp
next
  case (Transition request env)
  assume "\<forall>d\<in>set (collection w). mirrors d"
  from mirrors_transitionWorkflow [OF this, of request env] Transition show ?thesis by simp
next
  case (TimerFires i env)
  assume "\<forall>d\<in>set (collection w). mirrors d"
  from mirrors_autoProgressWorkflow [OF this, of i env] TimerFires show ?thesis by simp
qed

lemma mirrors_foldl:
  "\<forall>d\<in>set (collection w). mirrors d \<Longrightarrow> \<forall>d\<in>set (collection (foldl apply_op w ops)). mirrors d"
proof (induction ops arbitrary: w)
  case Nil
  then show ?case by simp
next
  case (Cons a ops)
  from Cons.IH [OF mirrors_apply_op [OF Cons.prems]] show ?case by simp
qed

lemma transition_appends:
  assumes "transitionWorkflow w req env = (Inr r, w')"
  shows "\<exists>t. findById (collection w) (transcriptionId req) = Some t \<and>
             findById (collection w') (transcriptionId req) = Some (transitioned t req env)"
  using transitionWorkflow_result [of w req env] assms
  by (auto simp: findById_write_back oid_transitioned findById_oid)

text \<open>
  C2. After any sequence of workflow creations, transitions and timer firings from the empty
  store, every record has a non-empty history whose last entry carries the record's current
  status. And every successful transition appends exactly one entry to the history of its
  record: the new history is the old one followed by the entry for \<open>newStatus\<close>, so its
  length grows by one and no earlier entry is edited or moved.
\<close>

theorem history_grows_and_mirrors_status:
  "(\<forall>d\<in>set (collection (run ops)).
      history_of d \<noteq> [] \<and> workflowStatus d = Some (status (last (history_of d)))) \<and>
   (\<forall>r w'. transitionWorkflow w req env = (Inr r, w') \<longrightarrow>
      (\<exists>t t'. findById (collection w) (transcriptionId req) = Some t \<and>
               findById (collection w') (transcriptionId req) = Some t' \<and>
               history_of t' =
                 history_of t @
                 [\<lparr> status = newStatus req, timestamp = now_timestamp env,
                    comment = rq_comment req, reviewedBy = rq_reviewedBy req \<rparr>] \<and>
               length (history_of t') = length (history_of t) + 1))"
proof -
  have "\<forall>d\<in>set (collection (run ops)). mirrors d"
    unfolding run_def by (rule mirrors_foldl) simp
  then have first: "\<forall>d\<in>set (collection (run ops)).
      history_of d \<noteq> [] \<and> workflowStatus d = Some (status (last (history_of d)))"
    by (simp add: mirrors_def)
  have app: "history_of (transitioned t req env) =
      history_of t @
      [\<lparr> status = newStatus req, timestamp = now_timestamp env,
         comment = rq_comment req, reviewedBy = rq_reviewedBy req \<rparr>]" for t
    by (simp add: transitioned_def history_of_def)
  have second: "\<exists>t t'. findById (collection w) (transcriptionId req) = Some t \<and>
               findById (collection w') (transcriptionId req) = Some t' \<and>
               history_of t' =
                 history_of t @
                 [\<lparr> status = newStatus req, timestamp = now_timestamp env,
                    comment = rq_comment req, reviewedBy = rq_reviewedBy req \<rparr>] \<and>
               length (history_of t') = length (history_of t) + 1"
    if "transitionWorkflow w req env = (Inr r, w')" for r w'
  proof -
    from transition_appends [OF that] obtain t where
      t: "findById (collection w) (transcriptionId req) = Some t"
         "findById (collection w') (transcriptionId req) = Some (transitioned t req env)"
      by blast
    have "length (history_of (transitioned t req env)) = length (history_of t) + 1"
      by (simp add: app)
    with t app [of t] show ?thesis by blast
  qed
  from first second show ?thesis by blast
qed

theorem history_grows_and_mirrors_status_witness:
  "hd (collection (run ex_ops)) \<in> set (collection (run ex_ops)) \<and>
   map status (history_of (hd (collection (run ex_ops)))) = [''transcription'', ''review''] \<and>
   workflowStatus (hd (collection (run ex_ops))) = Some ''review'' \<and>
   fst (transitionWorkflow (ex_world ''review'') (ex_request ''approval'') ex_env) =
     Inr \<lparr> resp_id = ''a1'', currentStatus = ''approval'',
           resp_workflowHistory = history_of (ex_doc ''a1'' ''review'') @
             [\<lparr> status = ''approval'', timestamp = 31, comment = Some ''checked'',
                reviewedBy = Some ''ann'' \<rparr>],
           canTransition = [''completed'', ''rejected''] \<rparr> \<and>
   map status (history_of (the (findById
       (collection (snd (transitionWorkflow (ex_world ''review'') (ex_request ''approval'') ex_env)))
       ''a1''))) = [''transcription'', ''review'', ''approval'']"
proof -
  let ?w1 = "snd (createWorkflow \<lparr> collection = [], timers = [] \<rparr> ex_create_request ex_create_env)"
  have w1: "?w1 = \<lparr> collection = [created ex_create_request ex_create_env],
                     timers = [(2000, ''a1'')] \<rparr>"
    by (simp add: createWorkflow_result ex_create_env_def)
  have w2: "collection (snd (autoProgressWorkflow
                 \<lparr> collection = [created ex_create_request ex_create_env],
                   timers = [(2000, ''a1'')] \<rparr> ''a1'' ex_auto_env)) =
      [transitioned (created ex_create_request ex_create_env)
         \<lparr> transcriptionId = ''a1'', newStatus = ''review'',
           rq_comment = Some ''Auto-progressed to review phase'',
           rq_reviewedBy = Some ''system'' \<rparr> ex_env]"
    by (simp add: autoProgressWorkflow_def autoProgress_try_def
        ex_auto_env_def ex_create_env_def truthy_def created_def auto_next_def
        transitionWorkflow_def transition_after_read_def ex_env_def findById_def
        validTransitions_def validTransitions_table_def transitioned_def history_of_def Let_def)
  have run: "collection (run ex_ops) =
      [transitioned (created ex_create_request ex_create_env)
         \<lparr> transcriptionId = ''a1'', newStatus = ''review'',
           rq_comment = Some ''Auto-progressed to review phase'',
           rq_reviewedBy = Some ''system'' \<rparr> ex_env]"
    by (simp add: run_def ex_ops_def w1 w2)
  have t: "transitionWorkflow (ex_world ''review'') (ex_request ''approval'') ex_env =
      (Inr (formatWorkflowResponse
             (transitioned (ex_doc ''a1'' ''review'') (ex_request ''approval'') ex_env)),
       (ex_world ''review'')\<lparr> collection :=
           [transitioned (ex_doc ''a1'' ''review'') (ex_request ''approval'') ex_env,
            ex_doc ''b2'' ''review''],
         timers := [(5000, ''a1'')] \<rparr>)"
    by (simp add: transitionWorkflow_def transition_after_read_def ex_env_def ex_world_def
        ex_request_def findById_def ex_doc_def truthy_def validTransitions_def
        validTransitions_table_def transitioned_def history_of_def Let_def)
  have c1: "hd (collection (run ex_ops)) \<in> set (collection (run ex_ops)) \<and>
      map status (history_of (hd (collection (run ex_ops)))) = [''transcription'', ''review''] \<and>
      workflowStatus (hd (collection (run ex_ops))) = Some ''review''"
    by (simp add: run transitioned_def history_of_def created_def)
  have c2: "fst (transitionWorkflow (ex_world ''review'') (ex_request ''approval'') ex_env) =
      Inr \<lparr> resp_id = ''a1'', currentStatus = ''approval'',
            resp_workflowHistory = history_of (ex_doc ''a1'' ''review'') @
              [\<lparr> status = ''approval'', timestamp = 31, comment = Some ''checked'',
                 reviewedBy = Some ''ann'' \<rparr>],
            canTransition = [''completed'', ''rejected''] \<rparr>"
    unfolding t
    by (simp add: transitioned_def history_of_def ex_doc_def ex_request_def ex_env_def
        formatWorkflowResponse_def or_default_def validTransitions_def
        validTransitions_table_def Let_def)
  have c3: "map status (history_of (the (findById
       (collection (snd (transitionWorkflow (ex_world ''review'') (ex_request ''approval'') ex_env)))
       ''a1''))) = [''transcription'', ''review'', ''approval'']"
    unfolding t
    by (simp add: transitioned_def history_of_def ex_doc_def ex_request_def ex_env_def
        findById_def)
  from history_grows_and_mirrors_status
         [of ex_ops "ex_world ''review''" "ex_request ''approval''" ex_env]
    c1 c2 c3
  show ?thesis by blast
qed

subsection \<open>Auto-progression\<close>

lemma auto_next_spec: "map_option fst (auto_next s) = spec_nextStatusFor s"
  by (simp add: auto_next_def spec_nextStatusFor_def)

lemma autoProgress_noop:
  assumes "findById (collection w) i = Some t" and "workflowStatus t = Some s"
    and "spec_nextStatusFor s = None"
  shows "autoProgressWorkflow w i env = (Inr (), w)"
proof -
  from assms(3) auto_next_spec [of s] have "auto_next s = None" by simp
  with assms(1,2) show ?thesis
    by (simp add: autoProgressWorkflow_def autoProgress_try_def split: option.split)
qed

lemma autoProgress_advances:
  assumes "findById (collection w) i = Some t" and "workflowStatus t = Some s"
    and "auto_next s = Some (n, c)"
    and "auto_find_error env = None"
    and "find_error (auto_transition_env env) = None"
    and "save_error (auto_transition_env env) = None"
  shows "autoProgressWorkflow w i env =
     (Inr (),
      w\<lparr> collection :=
           write_back
             (transitioned t
                \<lparr> transcriptionId = i, newStatus = n, rq_comment = Some c,
                  rq_reviewedBy = Some ''system'' \<rparr> (auto_transition_env env))
             (collection w),
         timers := timers w @
           scheduled \<lparr> transcriptionId = i, newStatus = n, rq_comment = Some c,
                       rq_reviewedBy = Some ''system'' \<rparr> \<rparr>)"
proof -
  from assms(3) have s: "s \<in> set workflow_statuses" "n \<in> set (spec_allowed_next s)"
    by (auto simp: auto_next_def workflow_statuses_def spec_allowed_next_def split: if_splits)
  from validTransitions_known [OF s(1)] truthy_known [OF s(1)] s(2) assms
  show ?thesis
    by (simp add: autoProgressWorkflow_def autoProgress_try_def transitionWorkflow_def
        transition_after_read_def transitioned_def scheduled_def history_of_def Let_def)
qed

text \<open>
  C3. When a timer fires, \<open>autoProgressWorkflow\<close> reads the record from the store as it is
  then. If the status it finds is \<open>transcription\<close>, \<open>review\<close> or \<open>approval\<close> and the store
  answers, the record moves to \<open>review\<close>, \<open>approval\<close> or \<open>completed\<close> respectively, and the
  appended history entry carries \<open>reviewedBy = system\<close>. For any other status it finds
  (\<open>rejected\<close> and \<open>completed\<close> among them) it does nothing: the world is unchanged.
\<close>

theorem auto_progression_follows_live_status:
  assumes "findById (collection w) i = Some t" and "workflowStatus t = Some s"
  shows "(spec_nextStatusFor s = None \<longrightarrow> autoProgressWorkflow w i env = (Inr (), w)) \<and>
         (\<forall>n. spec_nextStatusFor s = Some n \<and> auto_find_error env = None \<and>
               find_error (auto_transition_env env) = None \<and>
               save_error (auto_transition_env env) = None \<longrightarrow>
            (\<exists>c. findById (collection (snd (autoProgressWorkflow w i env))) i =
               Some (t\<lparr> workflowStatus := Some n,
                        updatedAt := Some (now_updatedAt (auto_transition_env env)),
                        workflowHistory := Some
                          (history_of t @
                           [\<lparr> status = n, timestamp = now_timestamp (auto_transition_env env),
                              comment = Some c, reviewedBy = Some ''system'' \<rparr>]) \<rparr>)))"
proof (intro conjI allI impI)
  assume "spec_nextStatusFor s = None"
  with assms show "autoProgressWorkflow w i env = (Inr (), w)" by (rule autoProgress_noop)
next
  fix n
  assume a: "spec_nextStatusFor s = Some n \<and> auto_find_error env = None \<and>
               find_error (auto_transition_env env) = None \<and>
               save_error (auto_transition_env env) = None"
  with auto_next_spec [of s] obtain c where c: "auto_next s = Some (n, c)"
    by (cases "auto_next s") auto
  let ?rq = "\<lparr> transcriptionId = i, newStatus = n, rq_comment = Some c,
                rq_reviewedBy = Some ''system'' \<rparr>"
  from autoProgress_advances [OF assms c] a
  have "collection (snd (autoProgressWorkflow w i env)) =
      write_back (transitioned t ?rq (auto_transition_env env)) (collection w)"
    by simp
  moreover have "oid (transitioned t ?rq (auto_transition_env env)) = i"
    using findById_oid [OF assms(1)] by (simp add: oid_transitioned)
  ultimately have "findById (collection (snd (autoProgressWorkflow w i env))) i =
      Some (transitioned t ?rq (auto_transition_env env))"
    using findById_write_back [OF assms(1)] by simp
  then show "\<exists>c. findById (collection (snd (autoProgressWorkflow w i env))) i =
               Some (t\<lparr> workflowStatus := Some n,
                        updatedAt := Some (now_updatedAt (auto_transition_env env)),
                        workflowHistory := Some
                          (history_of t @
                           [\<lparr> status = n, timestamp = now_timestamp (auto_transition_env env),
                              comment = Some c, reviewedBy = Some ''system'' \<rparr>]) \<rparr>)"
    by (auto simp: transitioned_def)
qed

theorem auto_progression_follows_live_status_witness:
  "timers ex_rejected_world = [(2000, ''a1'')] \<and>
   map_option workflowStatus (findById (collection ex_rejected_world) ''a1'')
     = Some (Some ''rejected'') \<and>
   autoProgressWorkflow ex_rejected_world ''a1'' ex_auto_env = (Inr (), ex_rejected_world) \<and>
   findById (collection (ex_world ''review'')) ''a1'' = Some (ex_doc ''a1'' ''review'') \<and>
   map_option workflowStatus
     (findById (collection (snd (autoProgressWorkflow (ex_world ''review'') ''a1'' ex_auto_env))) ''a1'')
     = Some (Some ''approval'') \<and>
   map_option (map reviewedBy \<circ> history_of)
     (findById (collection (snd (autoProgressWorkflow (ex_world ''review'') ''a1'' ex_auto_env))) ''a1'')
     = Some [None, None, Some ''system'']"
proof -
  let ?d = "transitioned (created ex_create_request ex_create_env) (ex_request ''rejected'') ex_env"
  have w: "ex_rejected_world = \<lparr> collection = [?d], timers = [(2000, ''a1'')] \<rparr>"
    unfolding ex_rejected_world_def
    by (simp add: createWorkflow_result)
      (simp add: ex_create_env_def transitionWorkflow_def transition_after_read_def
        findById_def created_def ex_request_def ex_env_def truthy_def validTransitions_def
        validTransitions_table_def transitioned_def history_of_def Let_def)
  have f1: "findById (collection ex_rejected_world) ''a1'' = Some ?d"
    by (simp add: w findById_def transitioned_def created_def ex_create_env_def)
  have s1: "workflowStatus ?d = Some ''rejected''"
    by (simp add: transitioned_def ex_request_def)
  have n1: "spec_nextStatusFor ''rejected'' = None"
    by (simp add: spec_nextStatusFor_def)
  have f2: "findById (collection (ex_world ''review'')) ''a1'' = Some (ex_doc ''a1'' ''review'')"
    by (simp add: ex_world_def findById_def ex_doc_def)
  have s2: "workflowStatus (ex_doc ''a1'' ''review'') = Some ''review''"
    by (simp add: ex_doc_def)
  have n2: "spec_nextStatusFor ''review'' = Some ''approval'' \<and> auto_find_error ex_auto_env = None \<and>
      find_error (auto_transition_env ex_auto_env) = None \<and>
      save_error (auto_transition_env ex_auto_env) = None"
    by (simp add: spec_nextStatusFor_def ex_auto_env_def ex_env_def)
  from auto_progression_follows_live_status [OF f1 s1, of ex_auto_env] n1
  have a: "autoProgressWorkflow ex_rejected_world ''a1'' ex_auto_env = (Inr (), ex_rejected_world)"
    by simp
  from auto_progression_follows_live_status [OF f2 s2, of ex_auto_env] n2
  obtain c where b: "findById
      (collection (snd (autoProgressWorkflow (ex_world ''review'') ''a1'' ex_auto_env))) ''a1'' =
      Some ((ex_doc ''a1'' ''review'')\<lparr> workflowStatus := Some ''approval'',
              updatedAt := Some (now_updatedAt (auto_transition_env ex_auto_env)),
              workflowHistory := Some
                (history_of (ex_doc ''a1'' ''review'') @
                 [\<lparr> status = ''approval'',
                    timestamp = now_timestamp (auto_transition_env ex_auto_env),
                    comment = Some c, reviewedBy = Some ''system'' \<rparr>]) \<rparr>)"
    by blast
  have "timers ex_rejected_world = [(2000, ''a1'')]" by (simp add: w)
  moreover have "map_option workflowStatus (findById (collection ex_rejected_world) ''a1'')
     = Some (Some ''rejected'')"
    by (simp add: f1 s1)
  moreover have "map_option workflowStatus
     (findById (collection (snd (autoProgressWorkflow (ex_world ''review'') ''a1'' ex_auto_env))) ''a1'')
     = Some (Some ''approval'')"
    by (simp add: b)
  moreover have "map_option (map reviewedBy \<circ> history_of)
     (findById (collection (snd (autoProgressWorkflow (ex_world ''review'') ''a1'' ex_auto_env))) ''a1'')
     = Some [None, None, Some ''system'']"
    by (simp add: b history_of_def ex_doc_def)
  ultimately show ?thesis using a f2 by blast
qed

subsection \<open>Creation\<close>

text \<open>
  C5. \<open>createWorkflow\<close> is all or nothing. If the mock download fails or the store refuses
  the write, the call fails; whenever the call fails the world is unchanged, so nothing is
  persisted. Whenever it succeeds, the collection has grown by exactly one record, with
  status \<open>transcription\<close> and the single history entry of status \<open>transcription\<close> and
  comment \<open>Workflow initiated - transcription completed\<close>. And it does succeed when the
  download works, the store accepts the write and the new id is not in use.
\<close>

theorem createWorkflow_all_or_nothing:
  "(download_fails env \<or> create_save_error env \<noteq> None \<longrightarrow>
      (\<exists>e. createWorkflow w request env = (Inl e, w))) \<and>
   (\<forall>e w'. createWorkflow w request env = (Inl e, w') \<longrightarrow> w' = w) \<and>
   (\<forall>r w'. createWorkflow w request env = (Inr r, w') \<longrightarrow>
      (\<exists>d. collection w' = collection w @ [d] \<and> oid d = new_oid env \<and>
           workflowStatus d = Some ''transcription'' \<and>
           workflowHistory d = Some
             [\<lparr> status = ''transcription'', timestamp = now_history env,
                comment = Some ''Workflow initiated - transcription completed'',
                reviewedBy = None \<rparr>])) \<and>
   (\<not> download_fails env \<and> create_save_error env = None \<and>
    new_oid env \<notin> set (map oid (collection w)) \<longrightarrow>
      (\<exists>r w'. createWorkflow w request env = (Inr r, w')))"
  by (auto simp: createWorkflow_result created_def split: option.splits if_splits)

theorem createWorkflow_all_or_nothing_witness:
  "createWorkflow (ex_world ''review'') ex_create_request ex_create_env_no_download =
     (Inl (Error ''Audio download failed - network timeout''), ex_world ''review'') \<and>
   createWorkflow (ex_world ''review'') ex_create_request ex_create_env_no_save =
     (Inl (StoreError ''connect ECONNREFUSED''), ex_world ''review'') \<and>
   createWorkflow (ex_world ''review'') ex_create_request (ex_create_env\<lparr> new_oid := ''c3'' \<rparr>) =
     (Inr \<lparr> resp_id = ''c3'', currentStatus = ''transcription'',
            resp_workflowHistory =
              [\<lparr> status = ''transcription'', timestamp = 10,
                 comment = Some ''Workflow initiated - transcription completed'',
                 reviewedBy = None \<rparr>],
            canTransition = [''review'', ''rejected''] \<rparr>,
      \<lparr> collection = collection (ex_world ''review'') @
          [created ex_create_request (ex_create_env\<lparr> new_oid := ''c3'' \<rparr>)],
        timers = [(2000, ''c3'')] \<rparr>)"
proof -
  have a: "createWorkflow (ex_world ''review'') ex_create_request ex_create_env_no_download =
     (Inl (Error ''Audio download failed - network timeout''), ex_world ''review'')"
    by (simp add: createWorkflow_result ex_create_env_no_download_def)
  have b: "createWorkflow (ex_world ''review'') ex_create_request ex_create_env_no_save =
     (Inl (StoreError ''connect ECONNREFUSED''), ex_world ''review'')"
    by (simp add: createWorkflow_result ex_create_env_no_save_def ex_create_env_def)
  have c: "createWorkflow (ex_world ''review'') ex_create_request (ex_create_env\<lparr> new_oid := ''c3'' \<rparr>) =
     (Inr \<lparr> resp_id = ''c3'', currentStatus = ''transcription'',
            resp_workflowHistory =
              [\<lparr> status = ''transcription'', timestamp = 10,
                 comment = Some ''Workflow initiated - transcription completed'',
                 reviewedBy = None \<rparr>],
            canTransition = [''review'', ''rejected''] \<rparr>,
      \<lparr> collection = collection (ex_world ''review'') @
          [created ex_create_request (ex_create_env\<lparr> new_oid := ''c3'' \<rparr>)],
        timers = [(2000, ''c3'')] \<rparr>)"
    by (simp add: createWorkflow_result ex_create_env_def ex_world_def ex_doc_def
        formatWorkflowResponse_def created_def or_default_def validTransitions_def
        validTransitions_table_def Let_def)
  from createWorkflow_all_or_nothing
         [of ex_create_env_no_download "ex_world ''review''" ex_create_request]
       createWorkflow_all_or_nothing
         [of ex_create_env_no_save "ex_world ''review''" ex_create_request]
       createWorkflow_all_or_nothing
         [of "ex_create_env\<lparr> new_oid := ''c3'' \<rparr>" "ex_world ''review''" ex_create_request]
       a b c
  show ?thesis by blast
qed

subsection \<open>A firing never throws\<close>

lemma autoProgressWorkflow_others:
  "filter (\<lambda>d. oid d \<noteq> i) (collection (snd (autoProgressWorkflow w i env))) =
   filter (\<lambda>d. oid d \<noteq> i) (collection w)"
proof -
  from autoProgress_try_result [of w i env]
  show ?thesis
  proof
    assume "\<exists>r. autoProgress_try w i env = (r, w)"
    then show ?thesis by (auto simp: snd_autoProgressWorkflow)
  next
    assume "\<exists>t n c. findById (collection w) i = Some t \<and> truthy (workflowStatus t) \<and>
        auto_next (the (workflowStatus t)) = Some (n, c) \<and>
        autoProgress_try w i env =
          (Inr (),
           snd (transitionWorkflow w
                  \<lparr> transcriptionId = i, newStatus = n, rq_comment = Some c,
                    rq_reviewedBy = Some ''system'' \<rparr> (auto_transition_env env)))"
    then obtain n c where tr: "snd (autoProgress_try w i env) =
        snd (transitionWorkflow w
                  \<lparr> transcriptionId = i, newStatus = n, rq_comment = Some c,
                    rq_reviewedBy = Some ''system'' \<rparr> (auto_transition_env env))"
      by auto
    let ?rq = "\<lparr> transcriptionId = i, newStatus = n, rq_comment = Some c,
                  rq_reviewedBy = Some ''system'' \<rparr>"
    from transitionWorkflow_result [of w ?rq "auto_transition_env env"]
    have "filter (\<lambda>d. oid d \<noteq> i)
            (collection (snd (transitionWorkflow w ?rq (auto_transition_env env)))) =
          filter (\<lambda>d. oid d \<noteq> i) (collection w)"
    proof
      assume "\<exists>e. transitionWorkflow w ?rq (auto_transition_env env) = (Inl e, w)"
      then show ?thesis by auto
    next
      assume "\<exists>t. findById (collection w) (transcriptionId ?rq) = Some t \<and>
          truthy (workflowStatus t) \<and>
          transitionWorkflow w ?rq (auto_transition_env env) =
            (Inr (formatWorkflowResponse (transitioned t ?rq (auto_transition_env env))),
             w\<lparr> collection := write_back (transitioned t ?rq (auto_transition_env env)) (collection w),
                timers := timers w @ scheduled ?rq \<rparr>)"
      then obtain t where t: "findById (collection w) i = Some t"
        "collection (snd (transitionWorkflow w ?rq (auto_transition_env env))) =
           write_back (transitioned t ?rq (auto_transition_env env)) (collection w)"
        by auto
      from findById_oid [OF t(1)]
      have "oid (transitioned t ?rq (auto_transition_env env)) = i"
        by (simp add: oid_transitioned)
      with filter_write_back [of "transitioned t ?rq (auto_transition_env env)" "collection w"] t(2)
      show ?thesis by simp
    qed
    with tr show ?thesis by (simp add: snd_autoProgressWorkflow)
  qed
qed

lemma findById_filter:
  "j \<noteq> i \<Longrightarrow> findById (filter (\<lambda>d. oid d \<noteq> i) c) j = findById c j"
  by (induction c) (auto simp: findById_def)

text \<open>
  C6. Whatever happens inside a firing (the record is gone, the store rejects the read or the
  write, the transition is refused), \<open>autoProgressWorkflow\<close> returns normally: its result is
  never a thrown value. And the firing leaves every record with another id as it was:
  the documents of the collection whose id differs from the fired one are the same, in the
  same order, so a lookup of any other id gives the same document before and after.
\<close>

theorem autoProgressWorkflow_contained:
  "fst (autoProgressWorkflow w i env) = Inr () \<and>
   filter (\<lambda>d. oid d \<noteq> i) (collection (snd (autoProgressWorkflow w i env))) =
     filter (\<lambda>d. oid d \<noteq> i) (collection w) \<and>
   (\<forall>j. j \<noteq> i \<longrightarrow>
      findById (collection (snd (autoProgressWorkflow w i env))) j = findById (collection w) j)"
proof (intro conjI allI impI)
  show "fst (autoProgressWorkflow w i env) = Inr ()" by (rule fst_autoProgressWorkflow)
  show o: "filter (\<lambda>d. oid d \<noteq> i) (collection (snd (autoProgressWorkflow w i env))) =
     filter (\<lambda>d. oid d \<noteq> i) (collection w)"
    by (rule autoProgressWorkflow_others)
  fix j :: string
  assume "j \<noteq> i"
  from findById_filter [OF this, of "collection (snd (autoProgressWorkflow w i env))"]
    findById_filter [OF this, of "collection w"] o
  show "findById (collection (snd (autoProgressWorkflow w i env))) j = findById (collection w) j"
    by simp
qed

theorem autoProgressWorkflow_contained_witness:
  "autoProgressWorkflow (ex_world ''review'') ''a1'' ex_auto_env_down = (Inr (), ex_world ''review'') \<and>
   autoProgressWorkflow (ex_world ''review'') ''zz'' ex_auto_env = (Inr (), ex_world ''review'') \<and>
   fst (autoProgressWorkflow (ex_world ''review'') ''a1'' ex_auto_env) = Inr () \<and>
   ''b2'' \<noteq> ''a1'' \<and>
   findById (collection (snd (autoProgressWorkflow (ex_world ''review'') ''a1'' ex_auto_env))) ''b2''
     = Some (ex_doc ''b2'' ''review'')"
proof -
  have a: "autoProgressWorkflow (ex_world ''review'') ''a1'' ex_auto_env_down =
      (Inr (), ex_world ''review'')"
    by (simp add: autoProgressWorkflow_def autoProgress_try_def ex_auto_env_down_def)
  have b: "autoProgressWorkflow (ex_world ''review'') ''zz'' ex_auto_env =
      (Inr (), ex_world ''review'')"
    by (simp add: autoProgressWorkflow_def autoProgress_try_def ex_auto_env_def ex_world_def
        findById_def ex_doc_def)
  have c: "findById (collection (ex_world ''review'')) ''b2'' = Some (ex_doc ''b2'' ''review'')"
    by (simp add: ex_world_def findById_def ex_doc_def)
  from autoProgressWorkflow_contained [of "ex_world ''review''" "''a1''" ex_auto_env] a b c
  show ?thesis by simp
qed

subsection \<open>The controller's list of statuses\<close>

text \<open>
  C4. The table allows \<open>review \<rightarrow> transcription\<close> and \<open>rejected \<rightarrow> transcription\<close>, the service
  performs both, and the status view of a rejected record offers \<open>transcription\<close> as its only
  next status. But the controller of \<^verbatim>\<open>PUT /workflow/:id/transition\<close> answers a request for
  \<open>transcription\<close> with 400 \<open>Invalid status\<close> before it calls the service, for a record in
  \<open>review\<close> and for a record in \<open>rejected\<close> alike, and the world is unchanged.
\<close>

theorem controller_refuses_transcription:
  "controller_transitionWorkflow (ex_world ''rejected'') ''a1'' ex_body_transcription ex_env =
     (\<lparr> statusCode = 400,
        body = ErrorOnly ''Invalid status. Must be one of: review, approval, completed, rejected'' \<rparr>,
      ex_world ''rejected'') \<and>
   controller_transitionWorkflow (ex_world ''review'') ''a1'' ex_body_transcription ex_env =
     (\<lparr> statusCode = 400,
        body = ErrorOnly ''Invalid status. Must be one of: review, approval, completed, rejected'' \<rparr>,
      ex_world ''review'') \<and>
   map_sum error_message canTransition (getWorkflowStatus (ex_world ''rejected'') ''a1'' None)
     = Inr [''transcription''] \<and>
   map_sum error_message currentStatus
     (fst (transitionWorkflow (ex_world ''rejected'') (ex_request ''transcription'') ex_env))
     = Inr ''transcription'' \<and>
   map_sum error_message currentStatus
     (fst (transitionWorkflow (ex_world ''review'') (ex_request ''transcription'') ex_env))
     = Inr ''transcription''"
  by (simp add: controller_transitionWorkflow_def ex_body_transcription_def truthy_def
      validStatuses_def getWorkflowStatus_def ex_world_def findById_def ex_doc_def
      formatWorkflowResponse_def or_default_def validTransitions_def validTransitions_table_def
      transitionWorkflow_def transition_after_read_def ex_request_def ex_env_def Let_def)

subsection \<open>Interleaved transitions\<close>

lemma race_world_0_eq:
  "race_world_0 =
     \<lparr> collection = [created ex_create_request ex_create_env], timers = [(2000, ''a1'')] \<rparr>"
  by (simp add: race_world_0_def createWorkflow_result ex_create_env_def)

lemma race_read_eq: "race_read = Some (created ex_create_request ex_create_env)"
  by (simp add: race_read_def race_world_0_eq findById_def created_def ex_create_env_def)

text \<open>
  C7, as stated: two interleaved calls cannot both succeed against a stale status. They can.
  Both calls read the record in status \<open>transcription\<close>. The first rejects it and succeeds; the
  store then holds \<open>rejected\<close>, from which \<open>review\<close> is not allowed. The second, which asks for
  \<open>review\<close>, still succeeds, and the store ends in \<open>review\<close>.
\<close>

theorem stale_transition_succeeds:
  "map_option workflowStatus race_read = Some (Some ''transcription'') \<and>
   map_sum error_message currentStatus
     (fst (transition_after_read race_world_0 race_read (ex_request ''rejected'') ex_env))
     = Inr ''rejected'' \<and>
   map_option workflowStatus (findById (collection race_world_1) ''a1'') = Some (Some ''rejected'') \<and>
   ''review'' \<notin> set (spec_allowed_next ''rejected'') \<and>
   map_sum error_message currentStatus
     (fst (transition_after_read race_world_1 race_read (ex_request ''review'') ex_env))
     = Inr ''review'' \<and>
   map_option workflowStatus (findById (collection race_world_2) ''a1'') = Some (Some ''review'')"
  by (simp add: race_world_2_def race_world_1_def race_read_eq race_world_0_eq
      transition_after_read_def created_def ex_request_def ex_env_def truthy_def
      validTransitions_def validTransitions_table_def formatWorkflowResponse_def or_default_def
      findById_def spec_allowed_next_def ex_create_env_def Let_def)

text \<open>
  C7, amended. Once a call has read its document, the store is not consulted again before
  the write: whatever status the store holds for that id by then, the call succeeds exactly
  when \<open>newStatus\<close> is allowed from the status it read (the store accepting the write), and
  the stored status becomes \<open>newStatus\<close>. There is no check that the stored status is still
  the one that was validated.
\<close>

theorem transition_validates_what_it_read:
  assumes "workflowStatus t = Some s" and "s \<in> set workflow_statuses"
    and "save_error env = None"
  shows "((\<exists>r w'. transition_after_read w (Some t) req env = (Inr r, w')) \<longleftrightarrow>
            newStatus req \<in> set (spec_allowed_next s)) \<and>
         (\<forall>stored. newStatus req \<in> set (spec_allowed_next s) \<and>
                   findById (collection w) (oid t) = Some stored \<longrightarrow>
            map_option workflowStatus
              (findById (collection (snd (transition_after_read w (Some t) req env))) (oid t))
              = Some (Some (newStatus req)))"
proof -
  have r: "transition_after_read w (Some t) req env =
      (if newStatus req \<in> set (spec_allowed_next s)
       then (Inr (formatWorkflowResponse (transitioned t req env)),
             w\<lparr> collection := write_back (transitioned t req env) (collection w),
                timers := timers w @ scheduled req \<rparr>)
       else (Inl (Error (invalid_transition_message s (newStatus req) (spec_allowed_next s))), w))"
    using assms validTransitions_known [OF assms(2)] truthy_known [OF assms(2)]
    by (simp add: transition_after_read_def transitioned_def scheduled_def history_of_def Let_def)
  have first: "(\<exists>r w'. transition_after_read w (Some t) req env = (Inr r, w')) \<longleftrightarrow>
      newStatus req \<in> set (spec_allowed_next s)"
    by (simp add: r)
  have second: "map_option workflowStatus
        (findById (collection (snd (transition_after_read w (Some t) req env))) (oid t))
        = Some (Some (newStatus req))"
    if "newStatus req \<in> set (spec_allowed_next s) \<and>
        findById (collection w) (oid t) = Some stored" for stored
  proof -
    from that have "findById (write_back (transitioned t req env) (collection w)) (oid t) =
        Some (transitioned t req env)"
      by (simp add: findById_write_back oid_transitioned)
    with that show ?thesis by (simp add: r transitioned_def)
  qed
  from first second show ?thesis by blast
qed

theorem transition_validates_what_it_read_witness:
  "workflowStatus (created ex_create_request ex_create_env) = Some ''transcription'' \<and>
   ''transcription'' \<in> set workflow_statuses \<and>
   save_error ex_env = None \<and>
   newStatus (ex_request ''review'') \<in> set (spec_allowed_next ''transcription'') \<and>
   map_option workflowStatus (findById (collection race_world_1) ''a1'') = Some (Some ''rejected'') \<and>
   map_option workflowStatus
     (findById
        (collection (snd (transition_after_read race_world_1
                            (Some (created ex_create_request ex_create_env))
                            (ex_request ''review'') ex_env)))
        ''a1'') = Some (Some ''review'')"
proof -
  have h1: "workflowStatus (created ex_create_request ex_create_env) = Some ''transcription''"
    by (simp add: created_def)
  have h2: "''transcription'' \<in> set workflow_statuses" by (simp add: workflow_statuses_def)
  have h3: "save_error ex_env = None" by (simp add: ex_env_def)
  have h4: "newStatus (ex_request ''review'') \<in> set (spec_allowed_next ''transcription'')"
    by (simp add: ex_request_def spec_allowed_next_def)
  have w1: "collection race_world_1 =
      [transitioned (created ex_create_request ex_create_env) (ex_request ''rejected'') ex_env]"
    by (simp add: race_world_1_def race_read_eq race_world_0_eq
      transition_after_read_def created_def ex_request_def ex_env_def truthy_def
      validTransitions_def validTransitions_table_def transitioned_def history_of_def Let_def)
  have h5: "findById (collection race_world_1) (oid (created ex_create_request ex_create_env)) =
      Some (transitioned (created ex_create_request ex_create_env) (ex_request ''rejected'') ex_env)"
    by (simp add: w1 findById_def transitioned_def created_def)
  have h6: "oid (created ex_create_request ex_create_env) = ''a1''"
    by (simp add: created_def ex_create_env_def)
  have h7: "workflowStatus
      (transitioned (created ex_create_request ex_create_env) (ex_request ''rejected'') ex_env)
      = Some ''rejected''"
    by (simp add: transitioned_def ex_request_def)
  from transition_validates_what_it_read [OF h1 h2 h3, of race_world_1 "ex_request ''review''"]
    h1 h2 h3 h4 h5 h6 h7
  show ?thesis by (simp add: ex_request_def)
qed

subsection \<open>Status views without history\<close>

lemma createTranscription_result:
  "createTranscription w request env =
     (if download_fails env then (Inl (Error ''Audio download failed - network timeout''), w)
      else case create_save_error env of
        Some m \<Rightarrow> (Inl (StoreError m), w)
      | None \<Rightarrow>
          if new_oid env \<in> set (map oid (collection w))
          then (Inl (StoreError ''E11000 duplicate key error''), w)
          else (Inr \<lparr> ct_id = new_oid env, ct_message = ''Transcription saved'' \<rparr>,
                w\<lparr> collection := collection w @
                     [new_Transcription (new_oid env) (ct_audioUrl request) (mock_text env) ''mock''
                        (or_default (ct_language request) ''en-US'') None (now_createdAt env)] \<rparr>))"
  by (simp add: createTranscription_def save_new_def new_Transcription_def Let_def
      split: option.split)

lemma findById_append_new:
  "oid d = i \<Longrightarrow> i \<notin> set (map oid c) \<Longrightarrow> findById (c @ [d]) i = Some d"
  by (induction c) (auto simp: findById_def)

text \<open>
  C10. \<open>getWorkflowStatus\<close> does not fail on a stored record without a workflow status: the
  view has \<open>currentStatus = transcription\<close>, \<open>canTransition = [review, rejected]\<close> and the
  history entries of the record, none when the record has none. A view with no history
  entry is reached through the services: a record made by the plain \<open>createTranscription\<close>
  (to which the schema gives its default status and an empty history) has exactly this view.
\<close>

theorem status_view_without_history:
  "(findById (collection w) i = Some t \<and> \<not> truthy (workflowStatus t) \<longrightarrow>
      getWorkflowStatus w i None =
        Inr \<lparr> resp_id = i, currentStatus = ''transcription'',
              resp_workflowHistory = history_of t,
              canTransition = [''review'', ''rejected''] \<rparr>) \<and>
   (findById (collection w) i = Some t \<and> \<not> truthy (workflowStatus t) \<and> history_of t = [] \<longrightarrow>
      getWorkflowStatus w i None =
        Inr \<lparr> resp_id = i, currentStatus = ''transcription'',
              resp_workflowHistory = [],
              canTransition = [''review'', ''rejected''] \<rparr>) \<and>
   (\<not> download_fails env \<and> create_save_error env = None \<and>
    new_oid env \<notin> set (map oid (collection w)) \<longrightarrow>
      fst (createTranscription w request env) =
        Inr \<lparr> ct_id = new_oid env, ct_message = ''Transcription saved'' \<rparr> \<and>
      getWorkflowStatus (snd (createTranscription w request env)) (new_oid env) None =
        Inr \<lparr> resp_id = new_oid env, currentStatus = ''transcription'',
              resp_workflowHistory = [],
              canTransition = [''review'', ''rejected''] \<rparr>)"
proof (intro conjI impI)
  assume a: "findById (collection w) i = Some t \<and> \<not> truthy (workflowStatus t)"
  then have d: "or_default (workflowStatus t) ''transcription'' = ''transcription''"
    by (auto simp: truthy_def or_default_def split: option.splits)
  from a findById_oid [of "collection w" i t]
  show g: "getWorkflowStatus w i None =
        Inr \<lparr> resp_id = i, currentStatus = ''transcription'',
              resp_workflowHistory = history_of t,
              canTransition = [''review'', ''rejected''] \<rparr>"
    by (simp add: getWorkflowStatus_def formatWorkflowResponse_def d history_of_def
        validTransitions_def validTransitions_table_def)
next
  assume a: "findById (collection w) i = Some t \<and> \<not> truthy (workflowStatus t) \<and> history_of t = []"
  then have d: "or_default (workflowStatus t) ''transcription'' = ''transcription''"
    by (auto simp: truthy_def or_default_def split: option.splits)
  from a findById_oid [of "collection w" i t]
  show "getWorkflowStatus w i None =
        Inr \<lparr> resp_id = i, currentStatus = ''transcription'',
              resp_workflowHistory = [],
              canTransition = [''review'', ''rejected''] \<rparr>"
    by (simp add: getWorkflowStatus_def formatWorkflowResponse_def d history_of_def
        validTransitions_def validTransitions_table_def)
next
  assume a: "\<not> download_fails env \<and> create_save_error env = None \<and>
    new_oid env \<notin> set (map oid (collection w))"
  then show "fst (createTranscription w request env) =
        Inr \<lparr> ct_id = new_oid env, ct_message = ''Transcription saved'' \<rparr>"
    by (simp add: createTranscription_result)
next
  assume a: "\<not> download_fails env \<and> create_save_error env = None \<and>
    new_oid env \<notin> set (map oid (collection w))"
  let ?d = "new_Transcription (new_oid env) (ct_audioUrl request) (mock_text env) ''mock''
                        (or_default (ct_language request) ''en-US'') None (now_createdAt env)"
  have "oid ?d = new_oid env" by (simp add: new_Transcription_def)
  from findById_append_new [OF this] a
  have "findById (collection (snd (createTranscription w request env))) (new_oid env) = Some ?d"
    by (simp add: createTranscription_result)
  then show "getWorkflowStatus (snd (createTranscription w request env)) (new_oid env) None =
        Inr \<lparr> resp_id = new_oid env, currentStatus = ''transcription'',
              resp_workflowHistory = [],
              canTransition = [''review'', ''rejected''] \<rparr>"
    by (simp add: getWorkflowStatus_def formatWorkflowResponse_def new_Transcription_def
        or_default_def validTransitions_def validTransitions_table_def)
qed

theorem status_view_without_history_witness:
  "getWorkflowStatus ex_legacy_world ''k9'' None =
     Inr \<lparr> resp_id = ''k9'', currentStatus = ''transcription'', resp_workflowHistory = [],
           canTransition = [''review'', ''rejected''] \<rparr> \<and>
   fst (createTranscription \<lparr> collection = [], timers = [] \<rparr> ex_plain_request ex_create_env) =
     Inr \<lparr> ct_id = ''a1'', ct_message = ''Transcription saved'' \<rparr> \<and>
   getWorkflowStatus
       (snd (createTranscription \<lparr> collection = [], timers = [] \<rparr> ex_plain_request ex_create_env))
       ''a1'' None =
     Inr \<lparr> resp_id = ''a1'', currentStatus = ''transcription'', resp_workflowHistory = [],
           canTransition = [''review'', ''rejected''] \<rparr>"
proof -
  let ?t = "\<lparr> oid = ''k9'', audioUrl = ''https://example.com/old.mp3'', transcription = ''old'',
            source = Some ''mock'', language = Some ''en-US'', workflowStatus = None,
            workflowHistory = None, createdAt = 5, updatedAt = None \<rparr>"
  have h1: "findById (collection ex_legacy_world) ''k9'' = Some ?t \<and>
      \<not> truthy (workflowStatus ?t) \<and> history_of ?t = []"
    by (simp add: ex_legacy_world_def findById_def truthy_def history_of_def)
  have h2: "\<not> download_fails ex_create_env \<and> create_save_error ex_create_env = None \<and>
      new_oid ex_create_env \<notin> set (map oid (collection \<lparr> collection = [], timers = [] \<rparr>))"
    by (simp add: ex_create_env_def)
  have h3: "new_oid ex_create_env = ''a1''" by (simp add: ex_create_env_def)
  from status_view_without_history
         [of ex_legacy_world "''k9''" ?t ex_create_env ex_plain_request] h1
       status_view_without_history
         [of "\<lparr> collection = [], timers = [] \<rparr>" "''k9''" ?t ex_create_env ex_plain_request] h2 h3
  show ?thesis by simp
qed

subsection \<open>Listing\<close>

lemma sorted_sort_desc: "sorted_wrt newer_or_equal (sort_desc c)"
proof -
  have "sorted (map sort_key_of (sort_key sort_key_of c))" by (rule sorted_sort_key)
  then have "sorted_wrt (\<lambda>a b. sort_key_of a \<le> sort_key_of b) (sort_key sort_key_of c)"
    by (simp add: sorted_wrt_map)
  then have "sorted_wrt (\<lambda>a b. sort_key_of b \<le> sort_key_of a) (sort_desc c)"
    by (simp add: sort_desc_def sorted_wrt_rev)
  moreover have "(sort_key_of b \<le> sort_key_of a) = newer_or_equal a b" for a b
    by (auto simp: sort_key_of_def newer_or_equal_def)
  ultimately show ?thesis by simp
qed

lemma mset_sort_desc: "mset (sort_desc c) = mset c"
  by (simp add: sort_desc_def)

lemma sorted_limit_docs: "sorted_wrt P xs \<Longrightarrow> sorted_wrt P (limit_docs n xs)"
  by (simp add: limit_docs_def)

lemma set_limit_docs: "set (limit_docs n xs) \<subseteq> set xs"
  by (auto simp: limit_docs_def dest: in_set_takeD)

text \<open>
  C8. For a page number of at least 1 and with the store answering, \<open>listWorkflows\<close> returns
  a window of one list \<open>ws\<close>: the records from position \<open>(page - 1) * limit\<close> on, at most
  \<open>limit\<close> of them (all of them when \<open>limit\<close> is 0), in the order of \<open>ws\<close>. \<open>ws\<close> is ordered most recently updated first, most recently created
  first among records updated at the same time or never. Without a status filter \<open>ws\<close> holds
  exactly the stored records that have a workflow status; with a filter it holds exactly the
  stored records whose status equals the filter. \<open>total\<close> is the number of those records,
  whatever the page and the limit.
\<close>

theorem listWorkflows_window:
  assumes "1 \<le> page"
  shows "\<exists>ws. listWorkflows w status' page limit None =
             Inr \<lparr> workflows = limit_docs limit (drop ((page - 1) * limit) ws),
                   total = length ws, resp_page = page, resp_limit = limit \<rparr> \<and>
           sorted_wrt newer_or_equal ws \<and>
           (\<forall>d\<in>set ws. workflowStatus d \<noteq> None) \<and>
           (truthy status' \<longrightarrow>
              mset ws = filter_mset (\<lambda>d. workflowStatus d = status') (mset (collection w))) \<and>
           (\<not> truthy status' \<longrightarrow>
              mset ws = filter_mset (\<lambda>d. workflowStatus d \<noteq> None) (mset (collection w))) \<and>
           length ws =
             (if truthy status'
              then length (filter (\<lambda>d. workflowStatus d = status') (collection w))
              else length (filter (\<lambda>d. workflowStatus d \<noteq> None) (collection w))) \<and>
           sorted_wrt newer_or_equal (limit_docs limit (drop ((page - 1) * limit) ws)) \<and>
           (\<forall>d\<in>set (limit_docs limit (drop ((page - 1) * limit) ws)).
              d \<in> set (collection w) \<and> workflowStatus d \<noteq> None \<and>
              (truthy status' \<longrightarrow> workflowStatus d = status'))"
proof -
  let ?ws = "sort_desc (filter (query_matches status') (collection w))"
  from assms obtain p where p: "page = Suc p" by (cases page) auto
  have e: "(int page - 1) * int limit = int ((page - 1) * limit)"
    unfolding p by simp
  have skip: "nat ((int page - 1) * int limit) = (page - 1) * limit"
    unfolding e by (rule nat_int)
  have nonneg: "\<not> (int page - 1) * int limit < 0"
    unfolding e not_less by (rule of_nat_0_le_iff)
  have res: "listWorkflows w status' page limit None =
             Inr \<lparr> workflows = limit_docs limit (drop ((page - 1) * limit) ?ws),
                   total = length ?ws, resp_page = page, resp_limit = limit \<rparr>"
    unfolding listWorkflows_def Let_def using skip nonneg by (simp add: sort_desc_def)
  have q1: "query_matches status' d = (workflowStatus d = status')" if "truthy status'" for d
    using that by (simp add: query_matches_def)
  have q2: "query_matches status' d = (workflowStatus d \<noteq> None)" if "\<not> truthy status'" for d
    using that by (simp add: query_matches_def)
  have m: "mset ?ws = filter_mset (query_matches status') (mset (collection w))"
    by (simp add: mset_sort_desc)
  have l: "length ?ws = length (filter (query_matches status') (collection w))"
    by (simp add: sort_desc_def)
  have bearing: "\<forall>d\<in>set ?ws. workflowStatus d \<noteq> None"
  proof
    fix d assume "d \<in> set ?ws"
    then have "d \<in># mset ?ws" by simp
    then have "query_matches status' d" unfolding m by simp
    then show "workflowStatus d \<noteq> None"
      by (cases "truthy status'") (auto simp: q1 q2 truthy_def split: option.splits)
  qed
  have c4: "truthy status' \<longrightarrow>
      mset ?ws = filter_mset (\<lambda>d. workflowStatus d = status') (mset (collection w))"
  proof
    assume t: "truthy status'"
    show "mset ?ws = filter_mset (\<lambda>d. workflowStatus d = status') (mset (collection w))"
      unfolding m by (rule filter_mset_cong) (simp_all add: q1 [OF t])
  qed
  have c5: "\<not> truthy status' \<longrightarrow>
      mset ?ws = filter_mset (\<lambda>d. workflowStatus d \<noteq> None) (mset (collection w))"
  proof
    assume t: "\<not> truthy status'"
    show "mset ?ws = filter_mset (\<lambda>d. workflowStatus d \<noteq> None) (mset (collection w))"
      unfolding m by (rule filter_mset_cong) (simp_all add: q2 [OF t])
  qed
  have c6: "length ?ws =
             (if truthy status'
              then length (filter (\<lambda>d. workflowStatus d = status') (collection w))
              else length (filter (\<lambda>d. workflowStatus d \<noteq> None) (collection w)))"
  proof (cases "truthy status'")
    case True
    have "filter (query_matches status') (collection w) =
        filter (\<lambda>d. workflowStatus d = status') (collection w)"
      by (rule filter_cong) (simp_all add: q1 [OF True])
    with True l show ?thesis by simp
  next
    case False
    have "filter (query_matches status') (collection w) =
        filter (\<lambda>d. workflowStatus d \<noteq> None) (collection w)"
      by (rule filter_cong) (simp_all add: q2 [OF False])
    with False l show ?thesis by simp
  qed
  have srt: "sorted_wrt newer_or_equal ?ws" by (rule sorted_sort_desc)
  have c7: "sorted_wrt newer_or_equal (limit_docs limit (drop ((page - 1) * limit) ?ws))"
    by (rule sorted_limit_docs) (rule sorted_wrt_drop [OF srt])
  have c8: "\<forall>d\<in>set (limit_docs limit (drop ((page - 1) * limit) ?ws)).
      d \<in> set (collection w) \<and> workflowStatus d \<noteq> None \<and>
      (truthy status' \<longrightarrow> workflowStatus d = status')"
  proof
    fix d assume "d \<in> set (limit_docs limit (drop ((page - 1) * limit) ?ws))"
    with set_limit_docs [of limit "drop ((page - 1) * limit) ?ws"]
    have "d \<in> set (drop ((page - 1) * limit) ?ws)" by blast
    then have in_ws: "d \<in> set ?ws" by (rule in_set_dropD)
    then have "d \<in># mset ?ws" by simp
    then have "d \<in> set (collection w) \<and> query_matches status' d" unfolding m by simp
    with in_ws bearing q1
    show "d \<in> set (collection w) \<and> workflowStatus d \<noteq> None \<and>
      (truthy status' \<longrightarrow> workflowStatus d = status')"
      by blast
  qed
  from res srt bearing c4 c5 c6 c7 c8
  show ?thesis by blast
qed

theorem listWorkflows_window_witness:
  "(1::nat) \<le> 1 \<and> (1::nat) \<le> 2 \<and>
   listWorkflows ex_list_world (Some ''review'') 1 2 None =
     Inr \<lparr> workflows = [ex_listed ''d4'' (Some ''review'') 30 (Some 50),
                        ex_listed ''d5'' (Some ''review'') 35 (Some 40)],
           total = 3, resp_page = 1, resp_limit = 2 \<rparr> \<and>
   listWorkflows ex_list_world (Some ''review'') 2 2 None =
     Inr \<lparr> workflows = [ex_listed ''d1'' (Some ''review'') 10 (Some 40)],
           total = 3, resp_page = 2, resp_limit = 2 \<rparr> \<and>
   listWorkflows ex_list_world None 1 10 None =
     Inr \<lparr> workflows = [ex_listed ''d4'' (Some ''review'') 30 (Some 50),
                        ex_listed ''d5'' (Some ''review'') 35 (Some 40),
                        ex_listed ''d1'' (Some ''review'') 10 (Some 40),
                        ex_listed ''d2'' (Some ''transcription'') 20 None],
           total = 4, resp_page = 1, resp_limit = 10 \<rparr>"
proof -
  have a: "listWorkflows ex_list_world (Some ''review'') 1 2 None =
     Inr \<lparr> workflows = [ex_listed ''d4'' (Some ''review'') 30 (Some 50),
                        ex_listed ''d5'' (Some ''review'') 35 (Some 40)],
           total = 3, resp_page = 1, resp_limit = 2 \<rparr>"
    by (simp add: listWorkflows_def ex_list_world_def query_matches_def truthy_def
        ex_listed_def sort_desc_def sort_key_of_def limit_docs_def Let_def)
  have b: "listWorkflows ex_list_world (Some ''review'') 2 2 None =
     Inr \<lparr> workflows = [ex_listed ''d1'' (Some ''review'') 10 (Some 40)],
           total = 3, resp_page = 2, resp_limit = 2 \<rparr>"
    by (simp add: listWorkflows_def ex_list_world_def query_matches_def truthy_def
        ex_listed_def sort_desc_def sort_key_of_def limit_docs_def Let_def)
  have c: "listWorkflows ex_list_world None 1 10 None =
     Inr \<lparr> workflows = [ex_listed ''d4'' (Some ''review'') 30 (Some 50),
                        ex_listed ''d5'' (Some ''review'') 35 (Some 40),
                        ex_listed ''d1'' (Some ''review'') 10 (Some 40),
                        ex_listed ''d2'' (Some ''transcription'') 20 None],
           total = 4, resp_page = 1, resp_limit = 10 \<rparr>"
    by (simp add: listWorkflows_def ex_list_world_def query_matches_def truthy_def
        ex_listed_def sort_desc_def sort_key_of_def limit_docs_def Let_def)
  have h1: "(1::nat) \<le> 1" and h2: "(1::nat) \<le> 2" by simp_all
  from listWorkflows_window [OF h1, of ex_list_world "Some ''review''" 2]
       listWorkflows_window [OF h2, of ex_list_world "Some ''review''" 2]
       listWorkflows_window [OF h1, of ex_list_world None 10]
       a b c h1 h2
  show ?thesis by blast
qed

subsection \<open>Retry and fallback\<close>

lemma withRetry_rounds:
  "withRetry retryConfig operation =
     (case operation 1 of
        Inr v \<Rightarrow> (Inr v, [Invoke 1])
      | Inl e1 \<Rightarrow>
          (case operation 2 of
             Inr v \<Rightarrow> (Inr v, [Invoke 1, Wait 1000, Invoke 2])
           | Inl e2 \<Rightarrow>
               (case operation 3 of
                  Inr v \<Rightarrow> (Inr v, [Invoke 1, Wait 1000, Invoke 2, Wait 2000, Invoke 3])
                | Inl e3 \<Rightarrow>
                    (Inl (as_Error e3),
                     [Invoke 1, Wait 1000, Invoke 2, Wait 2000, Invoke 3]))))"
proof -
  have r3: "withRetry_from retryConfig operation 3 l =
      (case operation 3 of Inr v \<Rightarrow> (Inr v, [Invoke 3])
       | Inl e3 \<Rightarrow> (Inl (as_Error e3), [Invoke 3]))" for l
    by (subst withRetry_from.simps) (simp add: retryConfig_def split: sum.split)
  have r2: "withRetry_from retryConfig operation 2 l =
      (case operation 2 of Inr v \<Rightarrow> (Inr v, [Invoke 2])
       | Inl e2 \<Rightarrow>
           (case withRetry_from retryConfig operation 3 (Some (as_Error e2)) of
              (r, evs) \<Rightarrow> (r, Invoke 2 # Wait 2000 # evs)))" for l
    by (subst withRetry_from.simps)
      (simp add: retryConfig_def calculateDelay_def split: sum.split)
  have r1: "withRetry_from retryConfig operation 1 l =
      (case operation 1 of Inr v \<Rightarrow> (Inr v, [Invoke 1])
       | Inl e1 \<Rightarrow>
           (case withRetry_from retryConfig operation 2 (Some (as_Error e1)) of
              (r, evs) \<Rightarrow> (r, Invoke 1 # Wait 1000 # evs)))" for l
    by (subst withRetry_from.simps)
      (simp add: retryConfig_def calculateDelay_def numeral_2_eq_2 [symmetric] split: sum.split)
  show ?thesis
    unfolding withRetry_def r1 r2 r3
    by (cases "operation 1"; cases "operation 2"; cases "operation 3") simp_all
qed

lemma trim_fallback_text: "trim fallback_text = fallback_text"
  by (simp add: trim_def fallback_text_def is_space_def)

lemma fallback_result:
  "fallbackToMockTranscription w request env =
     (if fb_save_error env = None \<and> fb_new_oid env \<notin> set (map oid (collection w))
      then (Inr \<lparr> az_id = fb_new_oid env, az_message = ''Transcription saved (fallback mode)'' \<rparr>,
            w\<lparr> collection := collection w @ [fallback_doc request env] \<rparr>)
      else (Inl (Error ''Both Azure and fallback transcription failed''), w))"
  by (auto simp: fallbackToMockTranscription_def save_new_def new_Transcription_def
      fallback_doc_def trim_fallback_text Let_def split: option.split)

lemma createAzure_try_failure:
  "createAzure_try w request env = (Inl e, w') \<Longrightarrow> w' = w"
  by (auto simp: createAzure_try_def save_new_def Let_def split: if_splits sum.splits option.splits)

lemma all_rounds_fail:
  assumes "\<forall>k. speech_fails env k"
  shows "\<exists>e. fst (withRetry retryConfig (callAzureSpeechService env)) = Inl e"
  using assms by (simp add: withRetry_rounds callAzureSpeechService_def)

lemma createAzure_try_all_fail:
  assumes "\<forall>k. speech_fails env k"
  shows "\<exists>e. createAzure_try w request env = (Inl e, w)"
  using all_rounds_fail [OF assms]
  by (auto simp: createAzure_try_def Let_def)

text \<open>
  C9. With the fixed retry policy (3 attempts, base 1000, cap 8000), \<open>withRetry\<close> invokes the
  operation at most 3 times, and what it does is one of three courses: one invocation; two
  invocations with a wait of \<open>min (1000 * 2 ^ 0) 8000\<close> between them; three invocations with
  waits of \<open>min (1000 * 2 ^ 0) 8000\<close> and \<open>min (1000 * 2 ^ 1) 8000\<close>. The wait after attempt
  \<open>n\<close> is \<open>calculateDelay n = min (1000 * 2 ^ (n - 1)) 8000\<close>. When every speech call
  fails and the store accepts the fallback write, \<open>createAzureTranscription\<close> succeeds in
  fallback mode and has persisted exactly the fallback record. It fails only when the
  fallback write is refused, and then nothing is persisted.
\<close>

theorem retry_then_fallback:
  "length (filter is_Invoke (snd (withRetry retryConfig operation))) \<le> 3 \<and>
   snd (withRetry retryConfig operation) \<in>
     {[Invoke 1],
      [Invoke 1, Wait (min (1000 * 2 ^ 0) 8000), Invoke 2],
      [Invoke 1, Wait (min (1000 * 2 ^ 0) 8000), Invoke 2,
       Wait (min (1000 * 2 ^ 1) 8000), Invoke 3]} \<and>
   (\<forall>n. 1 \<le> n \<longrightarrow> calculateDelay retryConfig n = min (1000 * 2 ^ (n - 1)) 8000) \<and>
   ((\<forall>k. speech_fails env k) \<and> fb_save_error env = None \<and>
    fb_new_oid env \<notin> set (map oid (collection w)) \<longrightarrow>
      createAzureTranscription w request env =
        (Inr \<lparr> az_id = fb_new_oid env, az_message = ''Transcription saved (fallback mode)'' \<rparr>,
         w\<lparr> collection := collection w @ [fallback_doc request env] \<rparr>)) \<and>
   (\<forall>e w'. createAzureTranscription w request env = (Inl e, w') \<longrightarrow>
      e = Error ''Both Azure and fallback transcription failed'' \<and> w' = w \<and>
      (fb_save_error env \<noteq> None \<or> fb_new_oid env \<in> set (map oid (collection w))))"
proof -
  have c1: "length (filter is_Invoke (snd (withRetry retryConfig operation))) \<le> 3"
    by (simp add: withRetry_rounds split: sum.split)
  have c2: "snd (withRetry retryConfig operation) \<in>
     {[Invoke 1],
      [Invoke 1, Wait (min (1000 * 2 ^ 0) 8000), Invoke 2],
      [Invoke 1, Wait (min (1000 * 2 ^ 0) 8000), Invoke 2,
       Wait (min (1000 * 2 ^ 1) 8000), Invoke 3]}"
    by (simp add: withRetry_rounds split: sum.split)
  have c3: "\<forall>n. 1 \<le> n \<longrightarrow> calculateDelay retryConfig n = min (1000 * 2 ^ (n - 1)) 8000"
    by (simp add: calculateDelay_def retryConfig_def)
  have c4: "createAzureTranscription w request env =
        (Inr \<lparr> az_id = fb_new_oid env, az_message = ''Transcription saved (fallback mode)'' \<rparr>,
         w\<lparr> collection := collection w @ [fallback_doc request env] \<rparr>)"
    if a: "(\<forall>k. speech_fails env k) \<and> fb_save_error env = None \<and>
      fb_new_oid env \<notin> set (map oid (collection w))"
  proof -
    from a obtain e where "createAzure_try w request env = (Inl e, w)"
      using createAzure_try_all_fail [of env w request] by blast
    with a show ?thesis
      by (simp add: createAzureTranscription_def fallback_result)
  qed
  have c5: "e = Error ''Both Azure and fallback transcription failed'' \<and> w' = w \<and>
      (fb_save_error env \<noteq> None \<or> fb_new_oid env \<in> set (map oid (collection w)))"
    if f: "createAzureTranscription w request env = (Inl e, w')" for e w'
  proof -
    obtain r w1 where t: "createAzure_try w request env = (r, w1)"
      by (cases "createAzure_try w request env")
    show ?thesis
    proof (cases r)
      case (Inr x)
      with t f show ?thesis by (simp add: createAzureTranscription_def)
    next
      case (Inl x)
      with t createAzure_try_failure [of w request env x w1] have "w1 = w" by simp
      with t Inl f show ?thesis
        by (simp add: createAzureTranscription_def fallback_result split: if_splits)
    qed
  qed
  from c1 c2 c3 c4 c5 show ?thesis by blast
qed

theorem retry_then_fallback_witness:
  "snd (withRetry retryConfig (callAzureSpeechService ex_azure_env)) =
     [Invoke 1, Wait 1000, Invoke 2, Wait 2000, Invoke 3] \<and>
   calculateDelay retryConfig 4 = 8000 \<and>
   createAzureTranscription (ex_world ''review'') ex_azure_request ex_azure_env =
     (Inr \<lparr> az_id = ''f7'', az_message = ''Transcription saved (fallback mode)'' \<rparr>,
      (ex_world ''review'')\<lparr> collection := collection (ex_world ''review'') @
          [fallback_doc ex_azure_request ex_azure_env] \<rparr>) \<and>
   transcription (fallback_doc ex_azure_request ex_azure_env) =
     ''This is a fallback transcription generated when Azure Speech Service is unavailable.'' \<and>
   createAzureTranscription (ex_world ''review'') ex_azure_request ex_azure_env_down =
     (Inl (Error ''Both Azure and fallback transcription failed''), ex_world ''review'')"
proof -
  have h1: "(\<forall>k. speech_fails ex_azure_env k) \<and> fb_save_error ex_azure_env = None \<and>
      fb_new_oid ex_azure_env \<notin> set (map oid (collection (ex_world ''review'')))"
    by (simp add: ex_azure_env_def ex_world_def ex_doc_def)
  have h2: "fb_new_oid ex_azure_env = ''f7''" by (simp add: ex_azure_env_def)
  have h3: "(1::nat) \<le> 4" by simp
  have c1: "snd (withRetry retryConfig (callAzureSpeechService ex_azure_env)) =
     [Invoke 1, Wait 1000, Invoke 2, Wait 2000, Invoke 3]"
    by (simp add: withRetry_rounds callAzureSpeechService_def ex_azure_env_def)
  have c4: "transcription (fallback_doc ex_azure_request ex_azure_env) =
     ''This is a fallback transcription generated when Azure Speech Service is unavailable.''"
    by (simp add: fallback_doc_def fallback_text_def)
  have t: "\<exists>e. createAzure_try (ex_world ''review'') ex_azure_request ex_azure_env_down =
      (Inl e, ex_world ''review'')"
    by (rule createAzure_try_all_fail) (simp add: ex_azure_env_down_def ex_azure_env_def)
  have c5: "createAzureTranscription (ex_world ''review'') ex_azure_request ex_azure_env_down =
     (Inl (Error ''Both Azure and fallback transcription failed''), ex_world ''review'')"
    using t
    by (auto simp: createAzureTranscription_def fallback_result ex_azure_env_down_def)
  from retry_then_fallback
         [of "callAzureSpeechService ex_azure_env" ex_azure_env "ex_world ''review''"
            ex_azure_request]
       h1 h2 h3 c1 c4 c5
  show ?thesis by simp
qed

end
